theory Spec2Isabelle
  imports Main "HOL-Library.Word"
begin

unbundle bit_operations_syntax

section \<open>Machine integers, byte strings and errors\<close>

text \<open>
  Go's fixed-width unsigned integers are words: \<open>+\<close> wraps around, \<open><\<close> and \<open>\<le>\<close>
  compare the unsigned values. Byte arrays and slices are lists of bytes.
\<close>

type_synonym byte = "8 word"
type_synonym bytes = "byte list"
type_synonym u16 = "16 word"
type_synonym u32 = "32 word"
type_synonym u64 = "64 word"
type_synonym u256 = "256 word"

text \<open>
  The codec's failure categories (spec, section 4.1).
\<close>

datatype CodecFailure =
    ShortBuffer
  | BadTypeTag
  | ArrayBoundViolation
  | DuplicateElement
  | OutOfOrderElement
  | TrailingBytes

text \<open>
  The error values of \<^verbatim>\<open>transaction.go\<close> and \<^verbatim>\<open>transaction_essence.go\<close>, by kind
  (the formatted context of \<^verbatim>\<open>fmt.Errorf("%w: ...")\<close> is dropped, the wrapped error is
  kept), and those the two files use but do not declare (\<open>ErrNativeTokenSumUnbalanced\<close>,
  \<open>ErrNativeTokenSumExceedsUint256\<close>, \<open>ErrNonUniqueFeatureBlocks\<close>,
  \<open>ErrMissingDeSerializationParas\<close>, \<open>ErrUnknownTransactionEssenceType\<close>,
  \<open>ErrUnsupportedObjectType\<close>, \<open>ErrUnsupportedPayloadType\<close>, \<open>ErrInvalidBytes\<close>, and the
  errors of the syntactic predicates). \<open>EncodingError\<close> is a failure of the codec,
  \<open>ErrExternal\<close> a failure of a capability the caller supplies (signature check, element
  encoder or decoder), and \<open>Panic\<close> a Go run-time panic (nil dereference, failed type
  assertion, index out of range).
\<close>

datatype Error =
    ErrMissingUTXO
  | ErrInputOutputSumMismatch
  | ErrSignatureAndAddrIncompatible
  | ErrInvalidInputUnlock
  | ErrSenderFeatureBlockNotUnlocked
  | ErrIssuerFeatureBlockNotUnlocked
  | ErrReturnAmountNotFulFilled
  | ErrTypeIsNotSupportedEssence
  | ErrMinInputsNotReached
  | ErrMinOutputsNotReached
  | ErrInputUTXORefsNotUnique
  | ErrInputUTXOIndexOutOfBounds
  | ErrOutputAddrNotUnique
  | ErrOutputRequiresSenderFeatureBlock
  | ErrAliasOutputNonEmptyState
  | ErrAliasOutputCyclicAddress
  | ErrNFTOutputCyclicAddress
  | ErrFoundryOutputInvalidMaximumSupply
  | ErrFoundryOutputInvalidCirculatingSupply
  | ErrOutputsSumExceedsTotalSupply
  | ErrOutputDepositsMoreThanTotalSupply
  | ErrOutputsExceedMaxNativeTokensCount
  | ErrDepositAmountMustBeGreaterThanZero
  | ErrNativeTokenSumUnbalanced
  | ErrNativeTokenSumExceedsUint256
  | ErrNonUniqueFeatureBlocks
  | ErrMissingDeSerializationParas
  | ErrUnknownTransactionEssenceType
  | ErrUnsupportedObjectType
  | ErrUnsupportedPayloadType
  | ErrInvalidBytes
  | ErrSigUnlockBlocksNotUnique
  | ErrReferentialUnlockBlockInvalid
  | EncodingError CodecFailure
  | ErrExternal
  | Panic

section \<open>Data model\<close>

subsection \<open>Addresses\<close>

text \<open>
  Modelled from the spec: the address types are declared outside the two source files.
  The closed variant set is \<open>Ed25519\<close>, \<open>Alias(AliasId)\<close>, \<open>NFT(NFTId)\<close>; the
  \<open>ChainConstrainedAddress\<close> sub-family is \<open>Alias\<close> and \<open>NFT\<close>, every other address is
  a \<open>DirectUnlockableAddress\<close>. Equality is byte-structural.
\<close>

datatype Address =
    Ed25519Address bytes
  | AliasAddress bytes
  | NFTAddress bytes

fun isChainConstrainedAddress :: "Address \<Rightarrow> bool" where
  "isChainConstrainedAddress (Ed25519Address _) = False"
| "isChainConstrainedAddress (AliasAddress _) = True"
| "isChainConstrainedAddress (NFTAddress _) = True"

text \<open>
  Modelled from the spec: \<open>Address.Key()\<close>, the identity bytes under which
  \<open>UnlockedIdents\<close> and the per-identity sums are keyed: the kind tag followed by the
  address bytes, so that structurally different addresses have different keys.
\<close>

fun Address_Key :: "Address \<Rightarrow> bytes" where
  "Address_Key (Ed25519Address h) = 0 # h"
| "Address_Key (AliasAddress a) = 8 # a"
| "Address_Key (NFTAddress n) = 16 # n"

subsection \<open>Feature blocks\<close>

text \<open>
  Modelled from the spec: the closed set of feature blocks and of their kinds.
\<close>

datatype FeatureBlock =
    SenderFeatureBlock Address
  | IssuerFeatureBlock Address
  | DustDepositReturnFeatureBlock u64
  | TimelockMilestoneIndexFeatureBlock u32
  | TimelockUnixFeatureBlock u64
  | ExpirationMilestoneIndexFeatureBlock u32
  | ExpirationUnixFeatureBlock u64
  | IndexationFeatureBlock bytes bytes
  | MetadataFeatureBlock bytes

datatype FeatureBlockType =
    FeatureBlockSender
  | FeatureBlockIssuer
  | FeatureBlockDustDepositReturn
  | FeatureBlockTimelockMilestoneIndex
  | FeatureBlockTimelockUnix
  | FeatureBlockExpirationMilestoneIndex
  | FeatureBlockExpirationUnix
  | FeatureBlockIndexation
  | FeatureBlockMetadata

fun FeatureBlock_Type :: "FeatureBlock \<Rightarrow> FeatureBlockType" where
  "FeatureBlock_Type (SenderFeatureBlock _) = FeatureBlockSender"
| "FeatureBlock_Type (IssuerFeatureBlock _) = FeatureBlockIssuer"
| "FeatureBlock_Type (DustDepositReturnFeatureBlock _) = FeatureBlockDustDepositReturn"
| "FeatureBlock_Type (TimelockMilestoneIndexFeatureBlock _) = FeatureBlockTimelockMilestoneIndex"
| "FeatureBlock_Type (TimelockUnixFeatureBlock _) = FeatureBlockTimelockUnix"
| "FeatureBlock_Type (ExpirationMilestoneIndexFeatureBlock _) = FeatureBlockExpirationMilestoneIndex"
| "FeatureBlock_Type (ExpirationUnixFeatureBlock _) = FeatureBlockExpirationUnix"
| "FeatureBlock_Type (IndexationFeatureBlock _ _) = FeatureBlockIndexation"
| "FeatureBlock_Type (MetadataFeatureBlock _) = FeatureBlockMetadata"

type_synonym FeatureBlocksSet = "FeatureBlockType \<rightharpoonup> FeatureBlock"

text \<open>
  Modelled from the spec: \<open>FeatureBlocks.Set()\<close> (declared outside the two source files)
  turns the sequence into a map keyed by kind; a kind that appears twice is an error
  (uniqueness by kind within one output).
\<close>

fun FeatureBlocks_Set_from :: "FeatureBlocksSet \<Rightarrow> FeatureBlock list \<Rightarrow> Error + FeatureBlocksSet" where
  "FeatureBlocks_Set_from set0 [] = Inr set0"
| "FeatureBlocks_Set_from set0 (b # bs) =
     (case set0 (FeatureBlock_Type b) of
        Some _ \<Rightarrow> Inl ErrNonUniqueFeatureBlocks
      | None \<Rightarrow> FeatureBlocks_Set_from (set0(FeatureBlock_Type b \<mapsto> b)) bs)"

definition FeatureBlocks_Set :: "FeatureBlock list \<Rightarrow> Error + FeatureBlocksSet" where
  "FeatureBlocks_Set bs = FeatureBlocks_Set_from Map.empty bs"

subsection \<open>Native tokens\<close>

text \<open>
  Modelled from the spec: a native token is a token id with a u256 amount.
\<close>

record NativeToken =
  nt_ID :: bytes
  nt_Amount :: u256

subsection \<open>Outputs\<close>

text \<open>
  Modelled from the spec: the output variants are declared outside the two source files.
  The closed set is \<open>Simple\<close>, \<open>Extended\<close>, \<open>Alias\<close>, \<open>Foundry\<close>, \<open>NFT\<close>. The fields are
  those the two source files read (\<open>Address\<close>, \<open>AliasID\<close>, \<open>StateController\<close>,
  \<open>GovernanceController\<close>, \<open>StateIndex\<close>, feature blocks, deposit) and those the spec's
  syntactic rules name.
\<close>

record SimpleOutput =
  simple_Address :: Address
  simple_Amount :: u64

record ExtendedOutput =
  ext_Address :: Address
  ext_Amount :: u64
  ext_NativeTokens :: "NativeToken list"
  ext_Blocks :: "FeatureBlock list"

record AliasOutput =
  alias_Amount :: u64
  alias_NativeTokens :: "NativeToken list"
  alias_AliasID :: bytes
  alias_StateController :: Address
  alias_GovernanceController :: Address
  alias_StateIndex :: u32
  alias_StateMetadata :: bytes
  alias_FoundryCounter :: u32
  alias_Blocks :: "FeatureBlock list"

record FoundryOutput =
  foundry_Address :: Address
  foundry_Amount :: u64
  foundry_NativeTokens :: "NativeToken list"
  foundry_SerialNumber :: u32
  foundry_TokenTag :: bytes
  foundry_CirculatingSupply :: u256
  foundry_MaximumSupply :: u256
  foundry_Blocks :: "FeatureBlock list"

record NFTOutput =
  nft_Address :: Address
  nft_Amount :: u64
  nft_NativeTokens :: "NativeToken list"
  nft_NFTID :: bytes
  nft_ImmutableMetadata :: bytes
  nft_Blocks :: "FeatureBlock list"

datatype Output =
    Simple SimpleOutput
  | Extended ExtendedOutput
  | Alias AliasOutput
  | Foundry FoundryOutput
  | NFT NFTOutput

text \<open>\<open>Output.Deposit()\<close>.\<close>

fun Deposit :: "Output \<Rightarrow> u64" where
  "Deposit (Simple o1) = simple_Amount o1"
| "Deposit (Extended o1) = ext_Amount o1"
| "Deposit (Alias o1) = alias_Amount o1"
| "Deposit (Foundry o1) = foundry_Amount o1"
| "Deposit (NFT o1) = nft_Amount o1"

text \<open>
  The type assertion \<^verbatim>\<open>output.(FeatureBlockOutput)\<close> followed by \<open>FeatureBlocks()\<close>:
  \<open>None\<close> when the variant carries no feature blocks (Simple), the sequence otherwise.
\<close>

fun FeatureBlocks_of :: "Output \<Rightarrow> FeatureBlock list option" where
  "FeatureBlocks_of (Simple _) = None"
| "FeatureBlocks_of (Extended o1) = Some (ext_Blocks o1)"
| "FeatureBlocks_of (Alias o1) = Some (alias_Blocks o1)"
| "FeatureBlocks_of (Foundry o1) = Some (foundry_Blocks o1)"
| "FeatureBlocks_of (NFT o1) = Some (nft_Blocks o1)"

text \<open>The type assertion \<^verbatim>\<open>output.(NativeTokenOutput)\<close> followed by \<open>NativeTokenSet()\<close>.\<close>

fun NativeTokens_of :: "Output \<Rightarrow> NativeToken list option" where
  "NativeTokens_of (Simple _) = None"
| "NativeTokens_of (Extended o1) = Some (ext_NativeTokens o1)"
| "NativeTokens_of (Alias o1) = Some (alias_NativeTokens o1)"
| "NativeTokens_of (Foundry o1) = Some (foundry_NativeTokens o1)"
| "NativeTokens_of (NFT o1) = Some (nft_NativeTokens o1)"

subsection \<open>Inputs, unlock blocks, essence and transaction\<close>

text \<open>
  An \<open>OutputID\<close> is the pair of a transaction id and an output index. The only input
  variant is the UTXO reference; \<open>Ref()\<close> gives the \<open>OutputID\<close> it references.
\<close>

type_synonym TransactionID = bytes
type_synonym OutputID = "TransactionID \<times> u16"

datatype Input = UTXOInput TransactionID u16

fun Ref :: "Input \<Rightarrow> OutputID" where
  "Ref (UTXOInput txid idx) = (txid, idx)"

datatype Signature = Ed25519Signature bytes bytes

datatype UnlockBlock =
    SignatureUnlockBlock Signature
  | ReferenceUnlockBlock u16
  | AliasUnlockBlock u16
  | NFTUnlockBlock u16

datatype Payload =
    Indexation bytes bytes
  | OtherPayload u32 bytes

text \<open>\<^verbatim>\<open>type TransactionEssence struct\<close> (\<^verbatim>\<open>transaction_essence.go\<close>).\<close>

record TransactionEssence =
  Inputs :: "Input list"
  Outputs :: "Output list"
  Payload :: "Payload option"

text \<open>
  \<^verbatim>\<open>type Transaction struct\<close> (\<^verbatim>\<open>transaction.go\<close>). \<open>Essence\<close> is a pointer: \<open>None\<close> is
  the nil pointer.
\<close>

record Transaction =
  Essence :: "TransactionEssence option"
  UnlockBlocks :: "UnlockBlock list"

type_synonym OutputSet = "(OutputID \<times> Output) list"

text \<open>
  A Go map that the code ranges over is an association list with distinct keys: the
  list order stands for the (unspecified) iteration order, so a theorem for every list
  holds for every iteration order.
\<close>

subsection \<open>Semantic validation context\<close>

text \<open>
  Modelled from the spec: a chain id is an \<open>AliasId\<close>, an \<open>NFTId\<close> or a \<open>FoundryId\<close>
  (declared outside the two source files). A Go map keyed by the \<open>ChainID\<close> interface
  distinguishes the three kinds even when their bytes agree.
\<close>

datatype ChainID =
    AliasID bytes
  | NFTID bytes
  | FoundryID bytes

datatype OutputType =
    OutputSimple
  | OutputExtended
  | OutputAlias
  | OutputFoundry
  | OutputNFT

fun Output_Type :: "Output \<Rightarrow> OutputType" where
  "Output_Type (Simple _) = OutputSimple"
| "Output_Type (Extended _) = OutputExtended"
| "Output_Type (Alias _) = OutputAlias"
| "Output_Type (Foundry _) = OutputFoundry"
| "Output_Type (NFT _) = OutputNFT"

type_synonym OutputsByType = "OutputType \<Rightarrow> Output list"
type_synonym UnlockedIdentities = "bytes \<rightharpoonup> u16"
type_synonym ChainConstrainedOutputsSet = "ChainID \<rightharpoonup> Output"
type_synonym NativeTokenSum = "(bytes \<times> u256) list"

text \<open>
  \<^verbatim>\<open>type SemValiContextWorkingSet struct\<close> and \<^verbatim>\<open>type SemanticValidationContext struct\<close>
  (\<^verbatim>\<open>transaction.go\<close>). In \<open>OutputsByType\<close> the nil slice of a missing key is the empty
  list.
\<close>

record SemValiContextWorkingSet =
  UnlockedIdents :: UnlockedIdentities
  InputSet :: OutputSet
  Tx :: Transaction
  EssenceMsgToSign :: bytes
  InputsByType :: OutputsByType
  InChains :: ChainConstrainedOutputsSet
  InNativeTokens :: NativeTokenSum
  OutputsByType :: OutputsByType
  OutChains :: ChainConstrainedOutputsSet
  OutNativeTokens :: NativeTokenSum

record SemanticValidationContext =
  ConfirmingMilestoneIndex :: u32
  ConfirmingMilestoneUnix :: u64
  WorkingSet :: SemValiContextWorkingSet

section \<open>Semantic validation: timelocks\<close>

text \<open>
  \<^verbatim>\<open>TxSemanticTimelock\<close> (\<^verbatim>\<open>transaction.go\<close>). The inner loop ranges over the feature
  blocks of one input, the outer loop over every entry of \<open>InputSet\<close>; the first
  unexpired timelock returns \<open>ErrInvalidInputUnlock\<close>.
\<close>

fun timelock_blocks :: "SemanticValidationContext \<Rightarrow> FeatureBlock list \<Rightarrow> Error option" where
  "timelock_blocks svCtx [] = None"
| "timelock_blocks svCtx (TimelockMilestoneIndexFeatureBlock idx # bs) =
     (if ConfirmingMilestoneIndex svCtx < idx then Some ErrInvalidInputUnlock
      else timelock_blocks svCtx bs)"
| "timelock_blocks svCtx (TimelockUnixFeatureBlock ts # bs) =
     (if ConfirmingMilestoneUnix svCtx < ts then Some ErrInvalidInputUnlock
      else timelock_blocks svCtx bs)"
| "timelock_blocks svCtx (_ # bs) = timelock_blocks svCtx bs"

fun timelock_inputs :: "SemanticValidationContext \<Rightarrow> OutputSet \<Rightarrow> Error option" where
  "timelock_inputs svCtx [] = None"
| "timelock_inputs svCtx ((inputIndex, input) # rest) =
     (case FeatureBlocks_of input of
        None \<Rightarrow> timelock_inputs svCtx rest
      | Some blocks \<Rightarrow>
          (case timelock_blocks svCtx blocks of
             Some e \<Rightarrow> Some e
           | None \<Rightarrow> timelock_inputs svCtx rest))"

definition TxSemanticTimelock :: "SemanticValidationContext \<Rightarrow> Error option" where
  "TxSemanticTimelock svCtx = timelock_inputs svCtx (InputSet (WorkingSet svCtx))"

text \<open>
  The condition of the spec's Timelock step, read on one feature block: a milestone-index
  timelock above the confirming milestone's index, or a unix timelock above its time.
\<close>

fun timelocked :: "SemanticValidationContext \<Rightarrow> FeatureBlock \<Rightarrow> bool" where
  "timelocked svCtx (TimelockMilestoneIndexFeatureBlock idx) = (ConfirmingMilestoneIndex svCtx < idx)"
| "timelocked svCtx (TimelockUnixFeatureBlock ts) = (ConfirmingMilestoneUnix svCtx < ts)"
| "timelocked svCtx _ = False"

definition carries_timelocked :: "SemanticValidationContext \<Rightarrow> Output \<Rightarrow> bool" where
  "carries_timelocked svCtx input =
     (case FeatureBlocks_of input of
        None \<Rightarrow> False
      | Some blocks \<Rightarrow> list_ex (timelocked svCtx) blocks)"

text \<open>
  Modelled from the spec: \<open>ToOutputsByType\<close> (declared outside the two source files)
  groups outputs by their variant.
\<close>

definition ToOutputsByType :: "Output list \<Rightarrow> OutputsByType" where
  "ToOutputsByType outs = (\<lambda>ty. filter (\<lambda>out. Output_Type out = ty) outs)"

section \<open>Semantic validation: deposit balance\<close>

text \<open>
  A \<^verbatim>\<open>map[string]uint64\<close> that the code builds with \<^verbatim>\<open>m[k] += v\<close> and later ranges
  over: an association list with distinct keys. A missing key reads as zero.
\<close>

type_synonym SumPerIdent = "(bytes \<times> u64) list"

fun sum_add :: "SumPerIdent \<Rightarrow> bytes \<Rightarrow> u64 \<Rightarrow> SumPerIdent" where
  "sum_add [] k v = [(k, 0 + v)]"
| "sum_add ((k', x) # m) k v =
     (if k' = k then (k', x + v) # m else (k', x) # sum_add m k v)"

text \<open>
  \<^verbatim>\<open>TxSemanticDeposit\<close> (\<^verbatim>\<open>transaction.go\<close>), first loop: over every entry of
  \<open>InputSet\<close>, \<^verbatim>\<open>in += input.Deposit()\<close> in \<open>uint64\<close>, and the return amount of a
  \<open>DustDepositReturnFeatureBlock\<close> added under the key of the sender's address. The two
  unchecked type assertions panic when the sender block is missing.
\<close>

fun deposit_inputs :: "u64 \<Rightarrow> SumPerIdent \<Rightarrow> OutputSet \<Rightarrow> Error + (u64 \<times> SumPerIdent)" where
  "deposit_inputs inSum returns [] = Inr (inSum, returns)"
| "deposit_inputs inSum returns ((oid, input) # rest) =
     (case FeatureBlocks_of input of
        None \<Rightarrow> deposit_inputs (inSum + Deposit input) returns rest
      | Some blocks \<Rightarrow>
          (case FeatureBlocks_Set blocks of
             Inl err \<Rightarrow> Inl err
           | Inr featBlockSet \<Rightarrow>
               (case featBlockSet FeatureBlockDustDepositReturn of
                  None \<Rightarrow> deposit_inputs (inSum + Deposit input) returns rest
                | Some returnFeatBlock \<Rightarrow>
                    (case featBlockSet FeatureBlockSender of
                       Some (SenderFeatureBlock addr) \<Rightarrow>
                         (case returnFeatBlock of
                            DustDepositReturnFeatureBlock amount \<Rightarrow>
                              deposit_inputs (inSum + Deposit input)
                                (sum_add returns (Address_Key addr) amount) rest
                          | _ \<Rightarrow> Inl Panic)
                     | _ \<Rightarrow> Inl Panic))))"

text \<open>
  Second loop: over the transaction's outputs, \<^verbatim>\<open>out += outDeposit\<close>, and the deposits
  of Simple outputs and of Extended outputs without feature blocks accumulated per
  address key.
\<close>

fun deposit_outputs :: "u64 \<Rightarrow> SumPerIdent \<Rightarrow> Output list \<Rightarrow> u64 \<times> SumPerIdent" where
  "deposit_outputs outSum transfers [] = (outSum, transfers)"
| "deposit_outputs outSum transfers (Simple o1 # rest) =
     deposit_outputs (outSum + Deposit (Simple o1))
       (sum_add transfers (Address_Key (simple_Address o1)) (Deposit (Simple o1))) rest"
| "deposit_outputs outSum transfers (Extended o1 # rest) =
     (if length (ext_Blocks o1) > 0
      then deposit_outputs (outSum + Deposit (Extended o1)) transfers rest
      else deposit_outputs (outSum + Deposit (Extended o1))
             (sum_add transfers (Address_Key (ext_Address o1)) (Deposit (Extended o1))) rest)"
| "deposit_outputs outSum transfers (output # rest) =
     deposit_outputs (outSum + Deposit output) transfers rest"

text \<open>Third loop: over the accumulated return sums.\<close>

fun deposit_returns :: "SumPerIdent \<Rightarrow> SumPerIdent \<Rightarrow> Error option" where
  "deposit_returns [] transfers = None"
| "deposit_returns ((ident, returnSum) # rest) transfers =
     (case map_of transfers ident of
        None \<Rightarrow> Some ErrReturnAmountNotFulFilled
      | Some outSum \<Rightarrow>
          (if outSum < returnSum then Some ErrReturnAmountNotFulFilled
           else deposit_returns rest transfers))"

definition TxSemanticDeposit :: "SemanticValidationContext \<Rightarrow> Error option" where
  "TxSemanticDeposit svCtx =
     (case deposit_inputs 0 [] (InputSet (WorkingSet svCtx)) of
        Inl err \<Rightarrow> Some err
      | Inr (inSum, returns) \<Rightarrow>
          (case Essence (Tx (WorkingSet svCtx)) of
             None \<Rightarrow> Some Panic
           | Some essence \<Rightarrow>
               (case deposit_outputs 0 [] (Outputs essence) of
                  (outSum, transfers) \<Rightarrow>
                    (if inSum \<noteq> outSum then Some ErrInputOutputSumMismatch
                     else deposit_returns returns transfers))))"

text \<open>
  The terms of the spec's Deposit-balance step. An input carrying a
  \<open>DustDepositReturnFeatureBlock(amount)\<close> with a \<open>SenderFeatureBlock(identity)\<close> declares
  the return of \<open>amount\<close> to \<open>identity\<close>; an output is a plain value transfer to an
  identity when it is a Simple output, or an Extended output with no feature blocks.
  The sums are taken in \<open>uint64\<close>, as the code takes them.
\<close>

fun isReturnBlock :: "FeatureBlock \<Rightarrow> bool" where
  "isReturnBlock (DustDepositReturnFeatureBlock _) = True"
| "isReturnBlock _ = False"

fun isSenderBlock :: "FeatureBlock \<Rightarrow> bool" where
  "isSenderBlock (SenderFeatureBlock _) = True"
| "isSenderBlock _ = False"

definition declared_return :: "Output \<Rightarrow> (bytes \<times> u64) option" where
  "declared_return input =
     (case FeatureBlocks_of input of
        None \<Rightarrow> None
      | Some blocks \<Rightarrow>
          (case (find isReturnBlock blocks, find isSenderBlock blocks) of
             (Some (DustDepositReturnFeatureBlock amount), Some (SenderFeatureBlock addr)) \<Rightarrow>
               Some (Address_Key addr, amount)
           | _ \<Rightarrow> None))"

fun plain_transfer :: "Output \<Rightarrow> (bytes \<times> u64) option" where
  "plain_transfer (Simple o1) = Some (Address_Key (simple_Address o1), simple_Amount o1)"
| "plain_transfer (Extended o1) =
     (if ext_Blocks o1 = [] then Some (Address_Key (ext_Address o1), ext_Amount o1) else None)"
| "plain_transfer _ = None"

definition amount_for :: "bytes \<Rightarrow> (bytes \<times> u64) list \<Rightarrow> u64" where
  "amount_for ident entries = sum_list (map snd (filter (\<lambda>e. fst e = ident) entries))"

definition declared_returns :: "OutputSet \<Rightarrow> (bytes \<times> u64) list" where
  "declared_returns inputs = List.map_filter (\<lambda>e. declared_return (snd e)) inputs"

definition plain_transfers :: "Output list \<Rightarrow> (bytes \<times> u64) list" where
  "plain_transfers outs = List.map_filter plain_transfer outs"

text \<open>
  Well-formed feature blocks of an input, as the data model and syntactic validation
  promise them: every kind at most once, and a sender wherever a return is declared.
\<close>

definition wf_blocks :: "Output \<Rightarrow> bool" where
  "wf_blocks input =
     (case FeatureBlocks_of input of
        None \<Rightarrow> True
      | Some blocks \<Rightarrow>
          distinct (map FeatureBlock_Type blocks) \<and>
          (list_ex isReturnBlock blocks \<longrightarrow> list_ex isSenderBlock blocks))"

text \<open>
  Reading a per-identity sum (zero for a missing key), and adding a list of
  (identity, amount) entries to it one by one, as the loops do.
\<close>

definition val_of :: "SumPerIdent \<Rightarrow> bytes \<Rightarrow> u64" where
  "val_of m k = (case map_of m k of None \<Rightarrow> 0 | Some v \<Rightarrow> v)"

definition add_all :: "(bytes \<times> u64) list \<Rightarrow> SumPerIdent \<Rightarrow> SumPerIdent" where
  "add_all es m = fold (\<lambda>e m. sum_add m (fst e) (snd e)) es m"

section \<open>Semantic validation: unlock resolution\<close>

text \<open>
  The capabilities the caller supplies (spec, external interfaces): the hash function
  (Blake2b-256) and the per-address \<open>Unlock(message, signature)\<close> check, which returns
  an error or succeeds.
\<close>

record Capabilities =
  cap_Hash :: "bytes \<Rightarrow> bytes"
  cap_Unlock :: "Address \<Rightarrow> bytes \<Rightarrow> Signature \<Rightarrow> Error option"

text \<open>
  Modelled from the spec: \<open>AliasID.Empty()\<close> and \<open>AliasIDFromOutputID\<close> (declared outside
  the two source files). An alias id is empty when all its bytes are zero; the id derived
  from an output id is the left-truncated hash of the transaction id followed by the
  output index (little-endian).
\<close>

definition AliasID_Empty :: "bytes \<Rightarrow> bool" where
  "AliasID_Empty aliasID = list_all (\<lambda>b. b = 0) aliasID"

definition OutputID_bytes :: "OutputID \<Rightarrow> bytes" where
  "OutputID_bytes oid =
     fst oid @ [ucast (snd oid), ucast (drop_bit 8 (snd oid))]"

definition AliasIDFromOutputID :: "Capabilities \<Rightarrow> OutputID \<Rightarrow> bytes" where
  "AliasIDFromOutputID caps oid = take 20 (cap_Hash caps (OutputID_bytes oid))"

text \<open>
  \<^verbatim>\<open>identToUnlockFromMultiIdentOutput\<close> (\<^verbatim>\<open>transaction.go\<close>). The alias id is the
  output's own, or, when that is empty, derived from the output id that the input at
  \<open>inputIndex\<close> references. The identity is the state controller, unless the output side
  has no chain under the alias id or has an alias output with the same state index:
  then it is the governance controller. The type assertions and the indexing panic where
  Go's do.
\<close>

definition inputAliasID ::
  "Capabilities \<Rightarrow> SemanticValidationContext \<Rightarrow> AliasOutput \<Rightarrow> nat \<Rightarrow> Error + bytes" where
  "inputAliasID caps svCtx inputAliasOutput inputIndex =
     (if AliasID_Empty (alias_AliasID inputAliasOutput)
      then (case Essence (Tx (WorkingSet svCtx)) of
              None \<Rightarrow> Inl Panic
            | Some essence \<Rightarrow>
                (if inputIndex < length (Inputs essence)
                 then Inr (AliasIDFromOutputID caps (Ref (Inputs essence ! inputIndex)))
                 else Inl Panic))
      else Inr (alias_AliasID inputAliasOutput))"

definition identToUnlockFromMultiIdentOutput ::
  "Capabilities \<Rightarrow> SemanticValidationContext \<Rightarrow> Output \<Rightarrow> nat \<Rightarrow> Error + Address" where
  "identToUnlockFromMultiIdentOutput caps svCtx inputMultiIdentOutput inputIndex =
     (case inputMultiIdentOutput of
        Alias inputAliasOutput \<Rightarrow>
          (case inputAliasID caps svCtx inputAliasOutput inputIndex of
             Inl err \<Rightarrow> Inl err
           | Inr aliasID \<Rightarrow>
               (case OutChains (WorkingSet svCtx) (AliasID aliasID) of
                  None \<Rightarrow> Inr (alias_GovernanceController inputAliasOutput)
                | Some (Alias outputAliasOutput) \<Rightarrow>
                    (if alias_StateIndex inputAliasOutput = alias_StateIndex outputAliasOutput
                     then Inr (alias_GovernanceController inputAliasOutput)
                     else Inr (alias_StateController inputAliasOutput))
                | Some _ \<Rightarrow> Inl Panic))
      | _ \<Rightarrow> Inl Panic)"

text \<open>
  \<^verbatim>\<open>identToUnlock\<close> (\<^verbatim>\<open>transaction.go\<close>). Modelled from the spec: for a
  \<open>SingleIdentOutput\<close> (every variant but Alias) \<open>Ident()\<close> is the output's stated owner.
\<close>

fun identToUnlock ::
  "Capabilities \<Rightarrow> SemanticValidationContext \<Rightarrow> Output \<Rightarrow> nat \<Rightarrow> Error + Address" where
  "identToUnlock caps svCtx (Simple o1) inputIndex = Inr (simple_Address o1)"
| "identToUnlock caps svCtx (Extended o1) inputIndex = Inr (ext_Address o1)"
| "identToUnlock caps svCtx (Foundry o1) inputIndex = Inr (foundry_Address o1)"
| "identToUnlock caps svCtx (NFT o1) inputIndex = Inr (nft_Address o1)"
| "identToUnlock caps svCtx (Alias o1) inputIndex =
     identToUnlockFromMultiIdentOutput caps svCtx (Alias o1) inputIndex"

text \<open>
  \<^verbatim>\<open>checkSenderFeatureBlockIdentUnlock\<close> (\<^verbatim>\<open>transaction.go\<close>): \<open>Inr None\<close> is the nil
  address. The unchecked type assertion on the sender block panics when it is missing.
\<close>

definition checkSenderFeatureBlockIdentUnlock ::
  "SemanticValidationContext \<Rightarrow> Output \<Rightarrow> Error + Address option" where
  "checkSenderFeatureBlockIdentUnlock svCtx output =
     (case FeatureBlocks_of output of
        None \<Rightarrow> Inr None
      | Some blocks \<Rightarrow>
          (case FeatureBlocks_Set blocks of
             Inl err \<Rightarrow> Inl err
           | Inr featBlockSet \<Rightarrow>
               (case (featBlockSet FeatureBlockExpirationMilestoneIndex,
                      featBlockSet FeatureBlockExpirationUnix) of
                  (None, None) \<Rightarrow> Inr None
                | (featBlockExpMsIndex, featBlockExpUnix) \<Rightarrow>
                    (case featBlockSet FeatureBlockSender of
                       Some (SenderFeatureBlock senderAddress) \<Rightarrow>
                         (case (featBlockExpMsIndex, featBlockExpUnix) of
                            (Some (ExpirationMilestoneIndexFeatureBlock idx),
                             Some (ExpirationUnixFeatureBlock ts)) \<Rightarrow>
                              (if idx \<le> ConfirmingMilestoneIndex svCtx \<and>
                                  ts \<le> ConfirmingMilestoneUnix svCtx
                               then Inr (Some senderAddress) else Inr None)
                          | (Some (ExpirationMilestoneIndexFeatureBlock idx), None) \<Rightarrow>
                              (if idx \<le> ConfirmingMilestoneIndex svCtx
                               then Inr (Some senderAddress) else Inr None)
                          | (None, Some (ExpirationUnixFeatureBlock ts)) \<Rightarrow>
                              (if ts \<le> ConfirmingMilestoneUnix svCtx
                               then Inr (Some senderAddress) else Inr None)
                          | _ \<Rightarrow> Inl Panic)
                     | _ \<Rightarrow> Inl Panic))))"

text \<open>
  The first lines of \<^verbatim>\<open>unlockOutput\<close>: the target identity is the one \<open>identToUnlock\<close>
  gives, replaced by the address \<open>checkSenderFeatureBlockIdentUnlock\<close> returns when that
  is not nil.
\<close>

definition targetIdentToUnlock ::
  "Capabilities \<Rightarrow> SemanticValidationContext \<Rightarrow> Output \<Rightarrow> nat \<Rightarrow> Error + Address" where
  "targetIdentToUnlock caps svCtx output inputIndex =
     (case identToUnlock caps svCtx output inputIndex of
        Inl err \<Rightarrow> Inl err
      | Inr targetIdent \<Rightarrow>
          (case checkSenderFeatureBlockIdentUnlock svCtx output of
             Inl err \<Rightarrow> Inl err
           | Inr None \<Rightarrow> Inr targetIdent
           | Inr (Some actualIdentToUnlock) \<Rightarrow> Inr actualIdentToUnlock))"

text \<open>
  Modelled from the spec: the referential unlock blocks' \<open>Chainable()\<close>,
  \<open>SourceAllowed(address)\<close> and \<open>Ref()\<close> (declared outside the two source files). Alias
  and NFT unlocks are chainable and allowed for an alias, respectively an NFT, address;
  a reference unlock is not chainable and allowed for every address that is not
  chain-constrained.
\<close>

fun Chainable :: "UnlockBlock \<Rightarrow> bool" where
  "Chainable (AliasUnlockBlock _) = True"
| "Chainable (NFTUnlockBlock _) = True"
| "Chainable _ = False"

fun SourceAllowed :: "UnlockBlock \<Rightarrow> Address \<Rightarrow> bool" where
  "SourceAllowed (ReferenceUnlockBlock _) a = (\<not> isChainConstrainedAddress a)"
| "SourceAllowed (AliasUnlockBlock _) (AliasAddress _) = True"
| "SourceAllowed (NFTUnlockBlock _) (NFTAddress _) = True"
| "SourceAllowed _ _ = False"

fun UnlockBlock_Ref :: "UnlockBlock \<Rightarrow> u16" where
  "UnlockBlock_Ref (ReferenceUnlockBlock i) = i"
| "UnlockBlock_Ref (AliasUnlockBlock i) = i"
| "UnlockBlock_Ref (NFTUnlockBlock i) = i"
| "UnlockBlock_Ref (SignatureUnlockBlock _) = 0"

text \<open>
  Modelled from the spec: the address of an output's chain, when the output is
  chain-constrained and its chain is addressable (Alias and NFT; a foundry's chain is
  not addressable).
\<close>

fun chainAddress :: "Output \<Rightarrow> Address option" where
  "chainAddress (Alias o1) = Some (AliasAddress (alias_AliasID o1))"
| "chainAddress (NFT o1) = Some (NFTAddress (nft_NFTID o1))"
| "chainAddress _ = None"

definition setUnlocked :: "SemanticValidationContext \<Rightarrow> bytes \<Rightarrow> nat \<Rightarrow> SemanticValidationContext" where
  "setUnlocked svCtx key inputIndex =
     svCtx\<lparr>WorkingSet := (WorkingSet svCtx)
       \<lparr>UnlockedIdents := (UnlockedIdents (WorkingSet svCtx))(key \<mapsto> of_nat inputIndex)\<rparr>\<rparr>"

text \<open>
  \<^verbatim>\<open>unlockOutput\<close> (\<^verbatim>\<open>transaction.go\<close>), after the target identity: the dispatch on
  the address kind and on the unlock block paired with the input. The context is
  returned with \<open>UnlockedIdents\<close> updated; \<^verbatim>\<open>uint16(inputIndex)\<close> is \<open>of_nat\<close>.
\<close>

definition unlockOutput ::
  "Capabilities \<Rightarrow> SemanticValidationContext \<Rightarrow> Output \<Rightarrow> nat \<Rightarrow> Error + SemanticValidationContext" where
  "unlockOutput caps svCtx output inputIndex =
     (case targetIdentToUnlock caps svCtx output inputIndex of
        Inl err \<Rightarrow> Inl err
      | Inr targetIdent \<Rightarrow>
          (if \<not> inputIndex < length (UnlockBlocks (Tx (WorkingSet svCtx))) then Inl Panic
           else
             (let unlockBlock = UnlockBlocks (Tx (WorkingSet svCtx)) ! inputIndex;
                  unlocked = UnlockedIdents (WorkingSet svCtx) (Address_Key targetIdent)
              in if isChainConstrainedAddress targetIdent
                 then (case unlockBlock of
                         SignatureUnlockBlock _ \<Rightarrow> Inl ErrInvalidInputUnlock
                       | referentialUnlockBlock \<Rightarrow>
                           (if \<not> Chainable referentialUnlockBlock \<or>
                               \<not> SourceAllowed referentialUnlockBlock targetIdent
                            then Inl ErrInvalidInputUnlock
                            else (case unlocked of
                                    None \<Rightarrow> Inl ErrInvalidInputUnlock
                                  | Some unlockedAtIndex \<Rightarrow>
                                      (if unlockedAtIndex \<noteq> UnlockBlock_Ref referentialUnlockBlock
                                       then Inl ErrInvalidInputUnlock
                                       else (case chainAddress output of
                                               Some addr \<Rightarrow>
                                                 Inr (setUnlocked svCtx (Address_Key addr) inputIndex)
                                             | None \<Rightarrow> Inr svCtx)))))
                 else (case unlockBlock of
                         SignatureUnlockBlock signature \<Rightarrow>
                           (case unlocked of
                              Some unlockedAtIndex \<Rightarrow> Inl ErrInvalidInputUnlock
                            | None \<Rightarrow>
                                (case cap_Unlock caps targetIdent
                                        (EssenceMsgToSign (WorkingSet svCtx)) signature of
                                   Some err \<Rightarrow> Inl err
                                 | None \<Rightarrow>
                                     Inr (setUnlocked svCtx (Address_Key targetIdent) inputIndex)))
                       | uBlock \<Rightarrow>
                           (if Chainable uBlock \<or> \<not> SourceAllowed uBlock targetIdent
                            then Inl ErrInvalidInputUnlock
                            else (case unlocked of
                                    None \<Rightarrow> Inl ErrInvalidInputUnlock
                                  | Some unlockedAtIndex \<Rightarrow>
                                      (if unlockedAtIndex \<noteq> UnlockBlock_Ref uBlock
                                       then Inl ErrInvalidInputUnlock
                                       else Inr svCtx)))))))"

text \<open>
  \<^verbatim>\<open>TxSemanticInputUnlocks\<close> (\<^verbatim>\<open>transaction.go\<close>): the inputs in order, each looked
  up in the input set and unlocked in the context the earlier ones left.
\<close>

fun input_unlocks ::
  "Capabilities \<Rightarrow> SemanticValidationContext \<Rightarrow> nat \<Rightarrow> Input list \<Rightarrow> Error + SemanticValidationContext" where
  "input_unlocks caps svCtx inputIndex [] = Inr svCtx"
| "input_unlocks caps svCtx inputIndex (inputRef # rest) =
     (case map_of (InputSet (WorkingSet svCtx)) (Ref inputRef) of
        None \<Rightarrow> Inl ErrMissingUTXO
      | Some input \<Rightarrow>
          (case unlockOutput caps svCtx input inputIndex of
             Inl err \<Rightarrow> Inl err
           | Inr svCtx' \<Rightarrow> input_unlocks caps svCtx' (Suc inputIndex) rest))"

definition TxSemanticInputUnlocks ::
  "Capabilities \<Rightarrow> SemanticValidationContext \<Rightarrow> Error + SemanticValidationContext" where
  "TxSemanticInputUnlocks caps svCtx =
     (case Essence (Tx (WorkingSet svCtx)) of
        None \<Rightarrow> Inl Panic
      | Some essence \<Rightarrow> input_unlocks caps svCtx 0 (Inputs essence))"

section \<open>Semantic validation: native tokens\<close>

text \<open>
  Modelled from the spec: \<open>OutputsByType.NativeTokenOutputs()\<close>, \<open>Sum()\<close>,
  \<open>NativeTokenSum.Balanced\<close> and \<open>NativeTokenID.FoundryID()\<close> are declared outside the
  two source files. \<open>NativeTokenOutputs\<close> collects the outputs that carry native tokens;
  \<open>Sum\<close> adds the amounts per token id into a u256 and rejects an overflow; \<open>Balanced\<close>
  requires the two sums to be equal as maps; the foundry id is derived from the token id
  (its first 26 bytes).
\<close>

definition NativeTokenOutputs :: "OutputsByType \<Rightarrow> Output list" where
  "NativeTokenOutputs byType =
     filter (\<lambda>out. NativeTokens_of out \<noteq> None)
       (concat (map byType [OutputSimple, OutputExtended, OutputAlias, OutputFoundry, OutputNFT]))"

fun sum_token :: "NativeTokenSum \<Rightarrow> bytes \<Rightarrow> u256 \<Rightarrow> Error + NativeTokenSum" where
  "sum_token [] tokenID amount = Inr [(tokenID, amount)]"
| "sum_token ((tokenID', val) # rest) tokenID amount =
     (if tokenID' = tokenID
      then (if unat val + unat amount \<ge> 2 ^ 256 then Inl ErrNativeTokenSumExceedsUint256
            else Inr ((tokenID', val + amount) # rest))
      else (case sum_token rest tokenID amount of
              Inl err \<Rightarrow> Inl err
            | Inr rest' \<Rightarrow> Inr ((tokenID', val) # rest')))"

fun sum_tokens :: "NativeTokenSum \<Rightarrow> NativeToken list \<Rightarrow> Error + NativeTokenSum" where
  "sum_tokens acc [] = Inr acc"
| "sum_tokens acc (nativeToken # rest) =
     (case sum_token acc (nt_ID nativeToken) (nt_Amount nativeToken) of
        Inl err \<Rightarrow> Inl err
      | Inr acc' \<Rightarrow> sum_tokens acc' rest)"

fun sum_outputs :: "NativeTokenSum \<Rightarrow> Output list \<Rightarrow> Error + NativeTokenSum" where
  "sum_outputs acc [] = Inr acc"
| "sum_outputs acc (out # rest) =
     (case sum_tokens acc (case NativeTokens_of out of None \<Rightarrow> [] | Some nts \<Rightarrow> nts) of
        Inl err \<Rightarrow> Inl err
      | Inr acc' \<Rightarrow> sum_outputs acc' rest)"

definition NativeTokenOutputs_Sum :: "Output list \<Rightarrow> Error + NativeTokenSum" where
  "NativeTokenOutputs_Sum outs = sum_outputs [] outs"

definition Balanced :: "NativeTokenSum \<Rightarrow> NativeTokenSum \<Rightarrow> Error option" where
  "Balanced nts other =
     (if list_all (\<lambda>e. map_of other (fst e) = Some (snd e)) nts \<and>
         list_all (\<lambda>e. map_of nts (fst e) = Some (snd e)) other
      then None else Some ErrNativeTokenSumUnbalanced)"

definition NativeTokenID_FoundryID :: "bytes \<Rightarrow> ChainID" where
  "NativeTokenID_FoundryID tokenID = FoundryID (take 26 tokenID)"

text \<open>
  \<^verbatim>\<open>TxSemanticNativeTokens\<close> (\<^verbatim>\<open>transaction.go\<close>). Both \<open>InNativeTokens\<close> and
  \<open>OutNativeTokens\<close> are assigned
  \<^verbatim>\<open>svCtx.WorkingSet.InputsByType.NativeTokenOutputs().Sum()\<close>, as the source has it.
  The loop of the foundry route, over one sum against the other, is \<open>unbalanced_tokens\<close>.
\<close>

fun unbalanced_tokens ::
  "ChainConstrainedOutputsSet \<Rightarrow> NativeTokenSum \<Rightarrow> NativeTokenSum \<Rightarrow> Error option" where
  "unbalanced_tokens outChains other [] = None"
| "unbalanced_tokens outChains other ((nativeTokenID, thisSum) # rest) =
     (if map_of other nativeTokenID \<noteq> Some thisSum \<and>
         outChains (NativeTokenID_FoundryID nativeTokenID) = None
      then Some ErrNativeTokenSumUnbalanced
      else unbalanced_tokens outChains other rest)"

definition TxSemanticNativeTokens ::
  "SemanticValidationContext \<Rightarrow> Error + SemanticValidationContext" where
  "TxSemanticNativeTokens svCtx =
     (case NativeTokenOutputs_Sum (NativeTokenOutputs (InputsByType (WorkingSet svCtx))) of
        Inl err \<Rightarrow> Inl err
      | Inr inNativeTokens \<Rightarrow>
          (case NativeTokenOutputs_Sum (NativeTokenOutputs (InputsByType (WorkingSet svCtx))) of
             Inl err \<Rightarrow> Inl err
           | Inr outNativeTokens \<Rightarrow>
               (let svCtx' = svCtx\<lparr>WorkingSet := (WorkingSet svCtx)
                                \<lparr>InNativeTokens := inNativeTokens,
                                 OutNativeTokens := outNativeTokens\<rparr>\<rparr>
                in if OutputsByType (WorkingSet svCtx) OutputFoundry = [] \<and>
                      InputsByType (WorkingSet svCtx) OutputFoundry = []
                   then (case Balanced inNativeTokens outNativeTokens of
                           Some err \<Rightarrow> Inl err
                         | None \<Rightarrow> Inr svCtx')
                   else (case unbalanced_tokens (OutChains (WorkingSet svCtx))
                                outNativeTokens inNativeTokens of
                           Some err \<Rightarrow> Inl err
                         | None \<Rightarrow>
                             (case unbalanced_tokens (OutChains (WorkingSet svCtx))
                                     inNativeTokens outNativeTokens of
                                Some err \<Rightarrow> Inl err
                              | None \<Rightarrow> Inr svCtx')))))"

section \<open>Codec: modes and array rules\<close>

text \<open>
  Modelled from the spec (section 4.1): the serializer library is outside the
  repository. The mode is a set of flags: no validation, \<open>PerformValidation\<close> and
  \<open>PerformLexicalOrdering\<close>. Array rules declare a minimum and a maximum count and a
  uniqueness mode; a count outside \<open>[min, max]\<close> is an array-bound violation.
\<close>

type_synonym DeSerializationMode = byte

definition DeSeriModeNoValidation :: DeSerializationMode where
  "DeSeriModeNoValidation = 0"

definition DeSeriModePerformValidation :: DeSerializationMode where
  "DeSeriModePerformValidation = 1"

definition DeSeriModePerformLexicalOrdering :: DeSerializationMode where
  "DeSeriModePerformLexicalOrdering = 2"

definition HasMode :: "DeSerializationMode \<Rightarrow> DeSerializationMode \<Rightarrow> bool" where
  "HasMode sm mode = (sm AND mode \<noteq> 0)"

datatype ArrayValidationMode =
    ArrayValidationModeNone
  | ArrayValidationModeNoDuplicates
  | ArrayValidationModeLexicalOrdering

record ArrayRules =
  ar_Min :: nat
  ar_Max :: nat
  ar_ValidationMode :: ArrayValidationMode

definition CheckBounds :: "ArrayRules \<Rightarrow> nat \<Rightarrow> Error option" where
  "CheckBounds rules n =
     (if n < ar_Min rules \<or> ar_Max rules < n then Some (EncodingError ArrayBoundViolation)
      else None)"

section \<open>Syntactic validation\<close>

text \<open>
  The constants of \<^verbatim>\<open>transaction_essence.go\<close>.
\<close>

definition MaxInputsCount :: nat where "MaxInputsCount = 127"
definition MinInputsCount :: nat where "MinInputsCount = 1"
definition MaxOutputsCount :: nat where "MaxOutputsCount = 127"
definition MinOutputsCount :: nat where "MinOutputsCount = 1"

text \<open>
  \<^verbatim>\<open>inputsArrayBound\<close>, \<^verbatim>\<open>outputsArrayBound\<close> (\<^verbatim>\<open>transaction_essence.go\<close>) and
  \<^verbatim>\<open>txUnlockBlockArrayRules\<close> (\<^verbatim>\<open>transaction.go\<close>, "min/max filled out in
  serialize/deserialize").
\<close>

definition inputsArrayBound :: ArrayRules where
  "inputsArrayBound =
     \<lparr>ar_Min = MinInputsCount, ar_Max = MaxInputsCount,
      ar_ValidationMode = ArrayValidationModeNoDuplicates\<rparr>"

definition outputsArrayBound :: ArrayRules where
  "outputsArrayBound =
     \<lparr>ar_Min = MinOutputsCount, ar_Max = MaxOutputsCount,
      ar_ValidationMode = ArrayValidationModeNone\<rparr>"

definition txUnlockBlockArrayRules :: ArrayRules where
  "txUnlockBlockArrayRules =
     \<lparr>ar_Min = 0, ar_Max = 0, ar_ValidationMode = ArrayValidationModeNone\<rparr>"

text \<open>
  Constants that the syntactic predicates use and that are declared outside the two
  source files (the total token supply, the maximum count of native tokens): parameters.
\<close>

record ProtocolConstants =
  TokenSupply :: u64
  MaxNativeTokensCount :: nat

text \<open>
  Modelled from the spec: \<open>ValidateInputs\<close>, \<open>ValidateOutputs\<close> and
  \<open>ValidateUnlockBlocks\<close> (declared outside the two source files) run the given
  predicates on every element in order and return the first error. A predicate sees the
  element's index and the whole sequence, so that it can compare with earlier elements.
\<close>

type_synonym 'a SyntacticPredicate = "nat \<Rightarrow> 'a list \<Rightarrow> Error option"

fun first_error :: "Error option list \<Rightarrow> Error option" where
  "first_error [] = None"
| "first_error (None # rest) = first_error rest"
| "first_error (Some err # rest) = Some err"

definition Validate :: "'a SyntacticPredicate list \<Rightarrow> 'a list \<Rightarrow> Error option" where
  "Validate preds xs =
     first_error (concat (map (\<lambda>i. map (\<lambda>p. p i xs) preds) [0..<length xs]))"

text \<open>
  Modelled from the spec (section 4.6): the predicates, declared outside the two source
  files. All input references are unique and each output index is at most 126; every
  output's deposit is above zero and at most the total supply, and so is the sum of the
  deposits; the native tokens per output and in total are at most
  \<open>MaxNativeTokensCount\<close>; an output with an expiration or a dust-deposit-return feature
  block has a sender feature block; a foundry's maximum supply is above zero and its
  circulating supply at most the maximum.
\<close>

definition InputsPredicateUnique :: "Input SyntacticPredicate" where
  "InputsPredicateUnique i ins =
     (if Ref (ins ! i) \<in> set (map Ref (take i ins)) then Some ErrInputUTXORefsNotUnique
      else None)"

definition InputsPredicateIndicesWithinBounds :: "Input SyntacticPredicate" where
  "InputsPredicateIndicesWithinBounds i ins =
     (if unat (snd (Ref (ins ! i))) > MaxOutputsCount - 1 then Some ErrInputUTXOIndexOutOfBounds
      else None)"

definition OutputsPredicateDepositAmount :: "ProtocolConstants \<Rightarrow> Output SyntacticPredicate" where
  "OutputsPredicateDepositAmount params i outs =
     (if Deposit (outs ! i) = 0 then Some ErrDepositAmountMustBeGreaterThanZero
      else if Deposit (outs ! i) > TokenSupply params then Some ErrOutputDepositsMoreThanTotalSupply
      else if sum_list (map (\<lambda>out. unat (Deposit out)) (take (Suc i) outs))
                > unat (TokenSupply params)
      then Some ErrOutputsSumExceedsTotalSupply
      else None)"

definition nativeTokensCount :: "Output \<Rightarrow> nat" where
  "nativeTokensCount out = (case NativeTokens_of out of None \<Rightarrow> 0 | Some nts \<Rightarrow> length nts)"

definition OutputsPredicateNativeTokensCount :: "ProtocolConstants \<Rightarrow> Output SyntacticPredicate" where
  "OutputsPredicateNativeTokensCount params i outs =
     (if sum_list (map nativeTokensCount (take (Suc i) outs)) > MaxNativeTokensCount params
      then Some ErrOutputsExceedMaxNativeTokensCount
      else None)"

fun requiresSender :: "FeatureBlock \<Rightarrow> bool" where
  "requiresSender (DustDepositReturnFeatureBlock _) = True"
| "requiresSender (ExpirationMilestoneIndexFeatureBlock _) = True"
| "requiresSender (ExpirationUnixFeatureBlock _) = True"
| "requiresSender _ = False"

definition OutputsPredicateSenderFeatureBlockRequirement :: "Output SyntacticPredicate" where
  "OutputsPredicateSenderFeatureBlockRequirement i outs =
     (case FeatureBlocks_of (outs ! i) of
        None \<Rightarrow> None
      | Some blocks \<Rightarrow>
          (if list_ex requiresSender blocks \<and> \<not> list_ex isSenderBlock blocks
           then Some ErrOutputRequiresSenderFeatureBlock
           else None))"

definition OutputsPredicateFoundry :: "Output SyntacticPredicate" where
  "OutputsPredicateFoundry i outs =
     (case outs ! i of
        Foundry o1 \<Rightarrow>
          (if foundry_MaximumSupply o1 = 0 then Some ErrFoundryOutputInvalidMaximumSupply
           else if foundry_CirculatingSupply o1 > foundry_MaximumSupply o1
           then Some ErrFoundryOutputInvalidCirculatingSupply
           else None)
      | _ \<Rightarrow> None)"

text \<open>
  \<^verbatim>\<open>TransactionEssence.SyntacticallyValidate\<close> (\<^verbatim>\<open>transaction_essence.go\<close>).
\<close>

definition SyntacticallyValidate :: "ProtocolConstants \<Rightarrow> TransactionEssence \<Rightarrow> Error option" where
  "SyntacticallyValidate params u =
     (if length (Inputs u) = 0 then Some ErrMinInputsNotReached
      else if length (Outputs u) = 0 then Some ErrMinOutputsNotReached
      else (case Validate [InputsPredicateUnique, InputsPredicateIndicesWithinBounds] (Inputs u) of
              Some err \<Rightarrow> Some err
            | None \<Rightarrow>
                Validate [OutputsPredicateDepositAmount params,
                          OutputsPredicateNativeTokensCount params,
                          OutputsPredicateSenderFeatureBlockRequirement,
                          OutputsPredicateFoundry] (Outputs u)))"

text \<open>
  Modelled from the spec (section 4.6): the predicates of the transaction-level
  validation, declared outside the two source files. An alias output with a zeroed id
  has its state counters at zero; the alias id (the stored one, or the one derived from
  the transaction id and the output's index when the stored one is zeroed) is not the
  address of one of its controllers; likewise an NFT's id is not its own address.
  Signature unlock blocks are unique and a referential unlock block points backward.
\<close>

definition OutputsSyntacticalAlias :: "Capabilities \<Rightarrow> TransactionID \<Rightarrow> Output SyntacticPredicate" where
  "OutputsSyntacticalAlias caps txID i outs =
     (case outs ! i of
        Alias o1 \<Rightarrow>
          (if AliasID_Empty (alias_AliasID o1) \<and>
              (alias_StateIndex o1 \<noteq> 0 \<or> alias_FoundryCounter o1 \<noteq> 0)
           then Some ErrAliasOutputNonEmptyState
           else (let aliasID = (if AliasID_Empty (alias_AliasID o1)
                                then AliasIDFromOutputID caps (txID, of_nat i)
                                else alias_AliasID o1)
                 in if alias_StateController o1 = AliasAddress aliasID \<or>
                       alias_GovernanceController o1 = AliasAddress aliasID
                    then Some ErrAliasOutputCyclicAddress
                    else None))
      | _ \<Rightarrow> None)"

definition OutputsSyntacticalNFT :: "Capabilities \<Rightarrow> TransactionID \<Rightarrow> Output SyntacticPredicate" where
  "OutputsSyntacticalNFT caps txID i outs =
     (case outs ! i of
        NFT o1 \<Rightarrow>
          (let nftID = (if AliasID_Empty (nft_NFTID o1)
                        then AliasIDFromOutputID caps (txID, of_nat i)
                        else nft_NFTID o1)
           in if nft_Address o1 = NFTAddress nftID then Some ErrNFTOutputCyclicAddress
              else None)
      | _ \<Rightarrow> None)"

definition UnlockBlocksSigUniqueAndRefValidator :: "UnlockBlock SyntacticPredicate" where
  "UnlockBlocksSigUniqueAndRefValidator i unlocks =
     (case unlocks ! i of
        SignatureUnlockBlock sig \<Rightarrow>
          (if SignatureUnlockBlock sig \<in> set (take i unlocks) then Some ErrSigUnlockBlocksNotUnique
           else None)
      | referential \<Rightarrow>
          (if unat (UnlockBlock_Ref referential) < i then None
           else Some ErrReferentialUnlockBlockInvalid))"

text \<open>
  \<^verbatim>\<open>Transaction.syntacticallyValidate\<close> (\<^verbatim>\<open>transaction.go\<close>). The essence is validated
  by the \<open>SyntacticallyValidate\<close> of \<^verbatim>\<open>transaction_essence.go\<close>, which takes no dust or
  rent parameters; the two parameters are carried as the source carries them.
\<close>

record DeSerializationParameters =
  MinDustDeposit :: u64
  RentStructure :: "u64 \<times> u64 \<times> u64"

definition Transaction_syntacticallyValidate ::
  "ProtocolConstants \<Rightarrow> Capabilities \<Rightarrow> Transaction \<Rightarrow> bytes \<Rightarrow> u64 \<Rightarrow> u64 \<times> u64 \<times> u64
     \<Rightarrow> Error option" where
  "Transaction_syntacticallyValidate params caps t readBytes minDustDep rentStruct =
     (case Essence t of
        None \<Rightarrow> Some Panic
      | Some essence \<Rightarrow>
          (case SyntacticallyValidate params essence of
             Some err \<Rightarrow> Some err
           | None \<Rightarrow>
               (let txID = cap_Hash caps readBytes
                in case Validate [OutputsSyntacticalAlias caps txID,
                                  OutputsSyntacticalNFT caps txID] (Outputs essence) of
                     Some err \<Rightarrow> Some err
                   | None \<Rightarrow>
                       Validate [UnlockBlocksSigUniqueAndRefValidator] (UnlockBlocks t))))"

text \<open>\<^verbatim>\<open>txDeSeriValidation\<close> (\<^verbatim>\<open>transaction.go\<close>).\<close>

definition txDeSeriValidation ::
  "ProtocolConstants \<Rightarrow> Capabilities \<Rightarrow> Transaction \<Rightarrow> DeSerializationParameters option
     \<Rightarrow> bytes \<Rightarrow> Error option" where
  "txDeSeriValidation params caps tx deSeriCtx readBytes =
     (case deSeriCtx of
        None \<Rightarrow> Some ErrMissingDeSerializationParas
      | Some deSeriParas \<Rightarrow>
          Transaction_syntacticallyValidate params caps tx readBytes
            (MinDustDeposit deSeriParas) (RentStructure deSeriParas))"

section \<open>Codec: encoding, transaction id\<close>

text \<open>
  The encoders of the elements (inputs, outputs, payload, unlock blocks) are declared
  outside the two source files: parameters. Each takes the mode and returns the
  element's bytes or an error.
\<close>

record Encoders =
  enc_Input :: "DeSerializationMode \<Rightarrow> Input \<Rightarrow> Error + bytes"
  enc_Output :: "DeSerializationMode \<Rightarrow> Output \<Rightarrow> Error + bytes"
  enc_Payload :: "DeSerializationMode \<Rightarrow> Payload \<Rightarrow> Error + bytes"
  enc_UnlockBlock :: "DeSerializationMode \<Rightarrow> UnlockBlock \<Rightarrow> Error + bytes"

text \<open>
  The type tags, declared outside the two source files: parameters.
\<close>

record TypeTags =
  tag_PayloadTransaction :: u32
  tag_InputUTXO :: u32
  tag_Output :: "OutputType \<Rightarrow> u32"
  tag_Indexation :: u32

definition le16 :: "u16 \<Rightarrow> bytes" where
  "le16 w = [ucast w, ucast (drop_bit 8 w)]"

definition le32 :: "u32 \<Rightarrow> bytes" where
  "le32 w = [ucast w, ucast (drop_bit 8 w), ucast (drop_bit 16 w), ucast (drop_bit 24 w)]"

text \<open>
  Modelled from the spec (section 4.1): the serializer's writers. A slice is written as
  its count in a u16 length prefix followed by the elements; a payload as its byte length
  in a u32 (0 when absent) followed by its bytes. Since decoding an encoding gives the
  object back, a count or length that does not fit its prefix cannot be written: it is
  an encoding error. With \<open>unique\<close>, two elements with the same bytes are a
  duplicate-element error.
\<close>

definition writeSliceLength :: "nat \<Rightarrow> Error + bytes" where
  "writeSliceLength n =
     (if n > 65535 then Inl (EncodingError ArrayBoundViolation) else Inr (le16 (of_nat n)))"

fun write_objects :: "('a \<Rightarrow> Error + bytes) \<Rightarrow> bool \<Rightarrow> bytes list \<Rightarrow> 'a list \<Rightarrow> Error + bytes" where
  "write_objects enc unique seen [] = Inr []"
| "write_objects enc unique seen (x # xs) =
     (case enc x of
        Inl err \<Rightarrow> Inl err
      | Inr written \<Rightarrow>
          (if unique \<and> written \<in> set seen then Inl (EncodingError DuplicateElement)
           else (case write_objects enc unique (written # seen) xs of
                   Inl err \<Rightarrow> Inl err
                 | Inr rest \<Rightarrow> Inr (written @ rest))))"

definition WriteSliceOfObjects :: "('a \<Rightarrow> Error + bytes) \<Rightarrow> bool \<Rightarrow> 'a list \<Rightarrow> Error + bytes" where
  "WriteSliceOfObjects enc unique xs =
     (case writeSliceLength (length xs) of
        Inl err \<Rightarrow> Inl err
      | Inr prefix \<Rightarrow>
          (case write_objects enc unique [] xs of
             Inl err \<Rightarrow> Inl err
           | Inr written \<Rightarrow> Inr (prefix @ written)))"

definition WriteSliceOfObjectsWithRules ::
  "('a \<Rightarrow> Error + bytes) \<Rightarrow> DeSerializationMode \<Rightarrow> ArrayRules \<Rightarrow> 'a list \<Rightarrow> Error + bytes" where
  "WriteSliceOfObjectsWithRules enc deSeriMode rules xs =
     (case (if HasMode deSeriMode DeSeriModePerformValidation
            then CheckBounds rules (length xs) else None) of
        Some err \<Rightarrow> Inl err
      | None \<Rightarrow>
          WriteSliceOfObjects enc
            (HasMode deSeriMode DeSeriModePerformValidation \<and>
             ar_ValidationMode rules \<noteq> ArrayValidationModeNone) xs)"

definition WritePayload :: "(Payload \<Rightarrow> Error + bytes) \<Rightarrow> Payload option \<Rightarrow> Error + bytes" where
  "WritePayload enc payload =
     (case payload of
        None \<Rightarrow> Inr (le32 0)
      | Some p \<Rightarrow>
          (case enc p of
             Inl err \<Rightarrow> Inl err
           | Inr written \<Rightarrow>
               (if length written \<ge> 2 ^ 32 then Inl (EncodingError ArrayBoundViolation)
                else Inr (le32 (of_nat (length written)) @ written))))"

text \<open>
  \<^verbatim>\<open>TransactionEssence.Serialize\<close> (\<^verbatim>\<open>transaction_essence.go\<close>). With validation: the
  payload, if present, is an indexation payload; the inputs' bytes are unique; and the
  first step of the serializer is \<open>SyntacticallyValidate\<close>. Without validation none of
  these is run. The slices are written without array rules.
\<close>

definition TransactionEssenceNormal :: byte where
  "TransactionEssenceNormal = 0"

fun isIndexation :: "Payload \<Rightarrow> bool" where
  "isIndexation (Indexation _ _) = True"
| "isIndexation _ = False"

definition TransactionEssence_Serialize ::
  "ProtocolConstants \<Rightarrow> Encoders \<Rightarrow> DeSerializationMode \<Rightarrow> TransactionEssence \<Rightarrow> Error + bytes" where
  "TransactionEssence_Serialize params encs deSeriMode u =
     (if HasMode deSeriMode DeSeriModePerformValidation \<and>
         (case Payload u of None \<Rightarrow> False | Some p \<Rightarrow> \<not> isIndexation p)
      then Inl ErrInvalidBytes
      else (case (if HasMode deSeriMode DeSeriModePerformValidation
                  then SyntacticallyValidate params u else None) of
              Some err \<Rightarrow> Inl err
            | None \<Rightarrow>
                (case WriteSliceOfObjects (enc_Input encs deSeriMode)
                        (HasMode deSeriMode DeSeriModePerformValidation \<and>
                         ar_ValidationMode inputsArrayBound = ArrayValidationModeNoDuplicates)
                        (Inputs u) of
                   Inl err \<Rightarrow> Inl err
                 | Inr inputsBytes \<Rightarrow>
                     (case WriteSliceOfObjects (enc_Output encs deSeriMode) False (Outputs u) of
                        Inl err \<Rightarrow> Inl err
                      | Inr outputsBytes \<Rightarrow>
                          (case WritePayload (enc_Payload encs deSeriMode) (Payload u) of
                             Inl err \<Rightarrow> Inl err
                           | Inr payloadBytes \<Rightarrow>
                               Inr (TransactionEssenceNormal # inputsBytes @ outputsBytes
                                      @ payloadBytes))))))"

text \<open>\<^verbatim>\<open>TransactionEssence.SigningMessage\<close> (\<^verbatim>\<open>transaction_essence.go\<close>).\<close>

definition SigningMessage ::
  "ProtocolConstants \<Rightarrow> Capabilities \<Rightarrow> Encoders \<Rightarrow> TransactionEssence \<Rightarrow> Error + bytes" where
  "SigningMessage params caps encs u =
     (case TransactionEssence_Serialize params encs
             (DeSeriModePerformValidation OR DeSeriModePerformLexicalOrdering) u of
        Inl err \<Rightarrow> Inl err
      | Inr essenceBytes \<Rightarrow> Inr (cap_Hash caps essenceBytes))"

text \<open>
  \<^verbatim>\<open>Transaction.Serialize\<close> (\<^verbatim>\<open>transaction.go\<close>). Reading the input count of a nil
  essence panics. The unlock blocks are written under a copy of the array rules with
  minimum and maximum set to the input count; the rules and the final
  \<open>syntacticallyValidate\<close> apply with validation only. The essence's write guard only
  refuses a nil or foreign essence, which the types exclude here.
\<close>

definition Transaction_Serialize ::
  "ProtocolConstants \<Rightarrow> Capabilities \<Rightarrow> Encoders \<Rightarrow> TypeTags \<Rightarrow> DeSerializationMode
     \<Rightarrow> DeSerializationParameters option \<Rightarrow> Transaction \<Rightarrow> Error + bytes" where
  "Transaction_Serialize params caps encs tags deSeriMode deSeriCtx t =
     (case Essence t of
        None \<Rightarrow> Inl Panic
      | Some essence \<Rightarrow>
          (let inputCount = length (Inputs essence);
               unlockBlockArrayRulesCopy =
                 txUnlockBlockArrayRules\<lparr>ar_Min := inputCount, ar_Max := inputCount\<rparr>
           in case TransactionEssence_Serialize params encs deSeriMode essence of
                Inl err \<Rightarrow> Inl err
              | Inr essenceBytes \<Rightarrow>
                  (case WriteSliceOfObjectsWithRules (enc_UnlockBlock encs deSeriMode) deSeriMode
                          unlockBlockArrayRulesCopy (UnlockBlocks t) of
                     Inl err \<Rightarrow> Inl err
                   | Inr unlockBytes \<Rightarrow>
                       (let written = le32 (tag_PayloadTransaction tags) @ essenceBytes @ unlockBytes
                        in case (if HasMode deSeriMode DeSeriModePerformValidation
                                 then txDeSeriValidation params caps t deSeriCtx written
                                 else None) of
                             Some err \<Rightarrow> Inl err
                           | None \<Rightarrow> Inr written))))"




section \<open>Codec: decoding\<close>

text \<open>
  The decoders of the elements, declared outside the two source files: parameters. Each
  takes the mode and the remaining bytes (starting at the element's type tag) and returns
  the element and the bytes after it. \<open>OutputsPredicateAddrUnique\<close>, which
  \<^verbatim>\<open>TransactionEssence.Deserialize\<close> runs on the outputs, is a parameter as well.
\<close>

record Decoders =
  dec_Input :: "DeSerializationMode \<Rightarrow> bytes \<Rightarrow> Error + (Input \<times> bytes)"
  dec_Output :: "DeSerializationMode \<Rightarrow> bytes \<Rightarrow> Error + (Output \<times> bytes)"
  dec_Payload :: "DeSerializationMode \<Rightarrow> bytes \<Rightarrow> Error + (Payload \<times> bytes)"
  dec_UnlockBlock :: "DeSerializationMode \<Rightarrow> bytes \<Rightarrow> Error + (UnlockBlock \<times> bytes)"
  OutputsPredicateAddrUnique :: "Output SyntacticPredicate"

text \<open>
  Modelled from the spec (section 4.1): the deserializer's readers. A slice is read as
  its u16 count, checked against the array rules when validation is on, followed by that
  many elements, each admitted by a guard on its type byte; with validation and a
  no-duplicates rule, two elements read from the same bytes are a duplicate-element
  error. A read past the end of the buffer is a short-buffer error.
\<close>

fun readSliceLength :: "bytes \<Rightarrow> Error + (nat \<times> bytes)" where
  "readSliceLength (lo # hi # rest) = Inr (unat lo + 256 * unat hi, rest)"
| "readSliceLength _ = Inl (EncodingError ShortBuffer)"

fun readU32 :: "bytes \<Rightarrow> Error + (u32 \<times> bytes)" where
  "readU32 (b0 # b1 # b2 # b3 # rest) =
     Inr (ucast b0 OR push_bit 8 (ucast b1) OR push_bit 16 (ucast b2) OR push_bit 24 (ucast b3),
          rest)"
| "readU32 _ = Inl (EncodingError ShortBuffer)"

definition readObject ::
  "(u32 \<Rightarrow> Error option) \<Rightarrow> (bytes \<Rightarrow> Error + ('a \<times> bytes)) \<Rightarrow> bytes \<Rightarrow> Error + ('a \<times> bytes)" where
  "readObject guard dec data =
     (case data of
        [] \<Rightarrow> Inl (EncodingError ShortBuffer)
      | ty # _ \<Rightarrow> (case guard (ucast ty) of Some err \<Rightarrow> Inl err | None \<Rightarrow> dec data))"

fun read_objects ::
  "(bytes \<Rightarrow> Error + ('a \<times> bytes)) \<Rightarrow> nat \<Rightarrow> bytes \<Rightarrow> Error + (('a \<times> bytes) list \<times> bytes)" where
  "read_objects rd 0 data = Inr ([], data)"
| "read_objects rd (Suc n) data =
     (case rd data of
        Inl err \<Rightarrow> Inl err
      | Inr (x, rest) \<Rightarrow>
          (case read_objects rd n rest of
             Inl err \<Rightarrow> Inl err
           | Inr (xs, rest') \<Rightarrow>
               Inr ((x, take (length data - length rest) data) # xs, rest')))"

definition ReadSliceOfObjects ::
  "(bytes \<Rightarrow> Error + ('a \<times> bytes)) \<Rightarrow> (u32 \<Rightarrow> Error option) \<Rightarrow> DeSerializationMode \<Rightarrow> ArrayRules
     \<Rightarrow> bytes \<Rightarrow> Error + ('a list \<times> bytes)" where
  "ReadSliceOfObjects dec guard deSeriMode rules data =
     (case readSliceLength data of
        Inl err \<Rightarrow> Inl err
      | Inr (sliceLength, rest) \<Rightarrow>
          (case (if HasMode deSeriMode DeSeriModePerformValidation
                 then CheckBounds rules sliceLength else None) of
             Some err \<Rightarrow> Inl err
           | None \<Rightarrow>
               (case read_objects (readObject guard dec) sliceLength rest of
                  Inl err \<Rightarrow> Inl err
                | Inr (objs, rest') \<Rightarrow>
                    (if HasMode deSeriMode DeSeriModePerformValidation \<and>
                        ar_ValidationMode rules = ArrayValidationModeNoDuplicates \<and>
                        \<not> distinct (map snd objs)
                     then Inl (EncodingError DuplicateElement)
                     else Inr (map fst objs, rest')))))"

definition ReadPayload ::
  "(bytes \<Rightarrow> Error + (Payload \<times> bytes)) \<Rightarrow> TypeTags \<Rightarrow> bytes \<Rightarrow> Error + (Payload option \<times> bytes)" where
  "ReadPayload dec tags data =
     (case readU32 data of
        Inl err \<Rightarrow> Inl err
      | Inr (payloadLength, rest) \<Rightarrow>
          (if payloadLength = 0 then Inr (None, rest)
           else if length rest < unat payloadLength then Inl (EncodingError ShortBuffer)
           else (case readU32 rest of
                   Inl err \<Rightarrow> Inl err
                 | Inr (ty, _) \<Rightarrow>
                     (if ty \<noteq> tag_Indexation tags then Inl ErrUnsupportedPayloadType
                      else (case dec (take (unat payloadLength) rest) of
                              Inl err \<Rightarrow> Inl err
                            | Inr (p, _) \<Rightarrow> Inr (Some p, drop (unat payloadLength) rest))))))"

text \<open>
  \<^verbatim>\<open>outputTypeSupportedByTxEssence\<close> and \<^verbatim>\<open>TransactionEssence.Deserialize\<close>
  (\<^verbatim>\<open>transaction_essence.go\<close>): the inputs are read under \<open>inputsArrayBound\<close>, the outputs
  under \<open>outputsArrayBound\<close>.
\<close>

definition outputTypeSupportedByTxEssence :: "TypeTags \<Rightarrow> u32 \<Rightarrow> bool" where
  "outputTypeSupportedByTxEssence tags ty =
     (ty = tag_Output tags OutputSimple \<or> ty = tag_Output tags OutputExtended \<or>
      ty = tag_Output tags OutputAlias \<or> ty = tag_Output tags OutputFoundry \<or>
      ty = tag_Output tags OutputNFT)"

definition TransactionEssenceMinByteSize :: nat where
  "TransactionEssenceMinByteSize = 1 + 2 + 2 + 4"

definition TransactionEssence_Deserialize ::
  "Decoders \<Rightarrow> TypeTags \<Rightarrow> DeSerializationMode \<Rightarrow> bytes \<Rightarrow> Error + (TransactionEssence \<times> bytes)" where
  "TransactionEssence_Deserialize decs tags deSeriMode data =
     (if HasMode deSeriMode DeSeriModePerformValidation \<and>
         length data < TransactionEssenceMinByteSize
      then Inl (EncodingError ShortBuffer)
      else if HasMode deSeriMode DeSeriModePerformValidation \<and>
              take 1 data \<noteq> [TransactionEssenceNormal]
      then Inl (EncodingError BadTypeTag)
      else (case data of
              [] \<Rightarrow> Inl (EncodingError ShortBuffer)
            | _ # afterType \<Rightarrow>
                (case ReadSliceOfObjects (dec_Input decs deSeriMode)
                        (\<lambda>ty. if ty = tag_InputUTXO tags then None
                              else Some ErrUnsupportedObjectType)
                        deSeriMode inputsArrayBound afterType of
                   Inl err \<Rightarrow> Inl err
                 | Inr (ins, afterInputs) \<Rightarrow>
                     (case ReadSliceOfObjects (dec_Output decs deSeriMode)
                             (\<lambda>ty. if outputTypeSupportedByTxEssence tags ty then None
                                   else Some ErrUnsupportedObjectType)
                             deSeriMode outputsArrayBound afterInputs of
                        Inl err \<Rightarrow> Inl err
                      | Inr (outs, afterOutputs) \<Rightarrow>
                          (case (if HasMode deSeriMode DeSeriModePerformValidation
                                 then Validate [OutputsPredicateAddrUnique decs] outs
                                 else None) of
                             Some err \<Rightarrow> Inl err
                           | None \<Rightarrow>
                               (case ReadPayload (dec_Payload decs deSeriMode) tags afterOutputs of
                                  Inl err \<Rightarrow> Inl err
                                | Inr (payload, afterPayload) \<Rightarrow>
                                    (if HasMode deSeriMode DeSeriModePerformValidation \<and>
                                        (case payload of None \<Rightarrow> False
                                         | Some p \<Rightarrow> \<not> isIndexation p)
                                     then Inl ErrInvalidBytes
                                     else Inr (\<lparr>Inputs = ins, Outputs = outs, Payload = payload\<rparr>,
                                               afterPayload))))))))"

text \<open>
  \<^verbatim>\<open>TransactionEssenceSelector\<close> (\<^verbatim>\<open>transaction_essence.go\<close>) and
  \<^verbatim>\<open>Transaction.Deserialize\<close> (\<^verbatim>\<open>transaction.go\<close>): the payload tag, the essence, the
  unlock blocks under array rules with minimum and maximum set to the input count, and
  with validation the transaction's \<open>syntacticallyValidate\<close> on the bytes read. The result
  is the transaction and the count of bytes read.
\<close>

definition TransactionEssenceSelector :: "u32 \<Rightarrow> Error option" where
  "TransactionEssenceSelector txType =
     (if (ucast txType :: byte) = TransactionEssenceNormal then None
      else Some ErrUnknownTransactionEssenceType)"

definition Transaction_Deserialize ::
  "ProtocolConstants \<Rightarrow> Capabilities \<Rightarrow> Decoders \<Rightarrow> TypeTags \<Rightarrow> DeSerializationMode
     \<Rightarrow> DeSerializationParameters option \<Rightarrow> bytes \<Rightarrow> Error + (Transaction \<times> nat)" where
  "Transaction_Deserialize params caps decs tags deSeriMode deSeriCtx data =
     (case readU32 data of
        Inl err \<Rightarrow> Inl err
      | Inr (ty, afterTag) \<Rightarrow>
          (if ty \<noteq> tag_PayloadTransaction tags then Inl (EncodingError BadTypeTag)
           else (case readObject TransactionEssenceSelector
                        (TransactionEssence_Deserialize decs tags deSeriMode) afterTag of
                   Inl err \<Rightarrow> Inl err
                 | Inr (essence, afterEssence) \<Rightarrow>
                     (let inputCount = length (Inputs essence);
                          unlockBlockArrayRulesCopy =
                            txUnlockBlockArrayRules\<lparr>ar_Min := inputCount, ar_Max := inputCount\<rparr>
                      in case ReadSliceOfObjects (dec_UnlockBlock decs deSeriMode) (\<lambda>ty. None)
                                deSeriMode unlockBlockArrayRulesCopy afterEssence of
                           Inl err \<Rightarrow> Inl err
                         | Inr (unlocks, afterUnlocks) \<Rightarrow>
                             (let t = \<lparr>Essence = Some essence, UnlockBlocks = unlocks\<rparr>;
                                  bytesRead = length data - length afterUnlocks
                              in case (if HasMode deSeriMode DeSeriModePerformValidation
                                       then txDeSeriValidation params caps t deSeriCtx
                                              (take bytesRead data)
                                       else None) of
                                   Some err \<Rightarrow> Inl err
                                 | None \<Rightarrow> Inr (t, bytesRead))))))"

section \<open>Example data\<close>

text \<open>
  A working set over a transaction and an input set, with the fields filled that do not
  need the transaction's hash, and a context over it. The examples below run the
  validation steps on such contexts.
\<close>

definition example_workingSet :: "Transaction \<Rightarrow> OutputSet \<Rightarrow> SemValiContextWorkingSet" where
  "example_workingSet t inputs =
     \<lparr>UnlockedIdents = Map.empty, InputSet = inputs, Tx = t, EssenceMsgToSign = [],
      InputsByType = ToOutputsByType (map snd inputs), InChains = Map.empty,
      InNativeTokens = [],
      OutputsByType = ToOutputsByType (case Essence t of None \<Rightarrow> [] | Some e \<Rightarrow> Outputs e),
      OutChains = Map.empty, OutNativeTokens = []\<rparr>"

definition example_svCtx :: "u32 \<Rightarrow> u64 \<Rightarrow> Transaction \<Rightarrow> OutputSet \<Rightarrow> SemanticValidationContext" where
  "example_svCtx msIndex msUnix t inputs =
     \<lparr>ConfirmingMilestoneIndex = msIndex, ConfirmingMilestoneUnix = msUnix,
      WorkingSet = example_workingSet t inputs\<rparr>"

definition addrA :: Address where
  "addrA = Ed25519Address (replicate 32 1)"

definition addrB :: Address where
  "addrB = Ed25519Address (replicate 32 2)"

definition txidA :: TransactionID where
  "txidA = replicate 32 7"

definition simple_out :: "Address \<Rightarrow> u64 \<Rightarrow> Output" where
  "simple_out a n = Simple \<lparr>simple_Address = a, simple_Amount = n\<rparr>"

definition extended_out :: "Address \<Rightarrow> u64 \<Rightarrow> FeatureBlock list \<Rightarrow> Output" where
  "extended_out a n blocks =
     Extended \<lparr>ext_Address = a, ext_Amount = n, ext_NativeTokens = [], ext_Blocks = blocks\<rparr>"

definition transfer_tx :: "Input list \<Rightarrow> Output list \<Rightarrow> UnlockBlock list \<Rightarrow> Transaction" where
  "transfer_tx ins outs unlocks =
     \<lparr>Essence = Some \<lparr>Inputs = ins, Outputs = outs, Payload = None\<rparr>, UnlockBlocks = unlocks\<rparr>"

definition sigA :: UnlockBlock where
  "sigA = SignatureUnlockBlock (Ed25519Signature (replicate 32 1) (replicate 64 9))"

text \<open>
  Scenario 6 of the spec: one input carrying \<open>TimelockUnix(1_700_000_000)\<close>, validated
  at a given confirming time.
\<close>

definition timelock_scenario :: "u64 \<Rightarrow> SemanticValidationContext" where
  "timelock_scenario msUnix =
     example_svCtx 0 msUnix
       (transfer_tx [UTXOInput txidA 0] [simple_out addrB 1000000] [sigA])
       [((txidA, 0), extended_out addrA 1000000 [TimelockUnixFeatureBlock 1700000000])]"

text \<open>
  Deposit-balance scenarios. In the first the two inputs hold \<open>2^63\<close> and \<open>2^63 + 5\<close>
  tokens and the single output 5. In the second the input declares a return of 0 tokens
  to \<open>addrA\<close> and the only output pays \<open>addrB\<close>. In the third the input declares a
  return of 4 tokens to \<open>addrA\<close>, and the outputs pay 4 to \<open>addrA\<close> and 6 to \<open>addrB\<close>.
\<close>

definition overflow_scenario :: SemanticValidationContext where
  "overflow_scenario =
     example_svCtx 0 0
       (transfer_tx [UTXOInput txidA 0, UTXOInput txidA 1] [simple_out addrB 5] [sigA, sigA])
       [((txidA, 0), simple_out addrA 9223372036854775808),
        ((txidA, 1), simple_out addrA 9223372036854775813)]"

definition zero_return_scenario :: SemanticValidationContext where
  "zero_return_scenario =
     example_svCtx 0 0
       (transfer_tx [UTXOInput txidA 0] [simple_out addrB 10] [sigA])
       [((txidA, 0),
         extended_out addrB 10 [SenderFeatureBlock addrA, DustDepositReturnFeatureBlock 0])]"

definition return_scenario :: SemanticValidationContext where
  "return_scenario =
     example_svCtx 0 0
       (transfer_tx [UTXOInput txidA 0] [simple_out addrA 4, simple_out addrB 6] [sigA])
       [((txidA, 0),
         extended_out addrB 10 [SenderFeatureBlock addrA, DustDepositReturnFeatureBlock 4])]"

text \<open>The context with another input set.\<close>

definition with_InputSet :: "SemanticValidationContext \<Rightarrow> OutputSet \<Rightarrow> SemanticValidationContext" where
  "with_InputSet svCtx inputs = svCtx\<lparr>WorkingSet := (WorkingSet svCtx)\<lparr>InputSet := inputs\<rparr>\<rparr>"

text \<open>
  Scenario 1 of the spec: one Simple input of 1_000_000 tokens, one Simple output of
  1_000_000 tokens to another address, one signature unlock.
\<close>

definition minimal_scenario :: SemanticValidationContext where
  "minimal_scenario =
     example_svCtx 0 0
       (transfer_tx [UTXOInput txidA 0] [simple_out addrB 1000000] [sigA])
       [((txidA, 0), simple_out addrA 1000000)]"

text \<open>The context with the transaction's inputs replaced.\<close>

definition with_TxInputs :: "SemanticValidationContext \<Rightarrow> Input list \<Rightarrow> SemanticValidationContext" where
  "with_TxInputs svCtx ins =
     svCtx\<lparr>WorkingSet := (WorkingSet svCtx)
       \<lparr>Tx := (Tx (WorkingSet svCtx))
          \<lparr>Essence := map_option (\<lambda>e. e\<lparr>Inputs := ins\<rparr>) (Essence (Tx (WorkingSet svCtx)))\<rparr>\<rparr>\<rparr>"

text \<open>
  Stand-ins for the caller's capabilities, for the examples only: the hash pads or cuts
  its input to 32 bytes, and an Ed25519 address is unlocked by a signature whose public
  key bytes are the address bytes.
\<close>

definition example_caps :: Capabilities where
  "example_caps =
     \<lparr>cap_Hash = (\<lambda>data. take 32 (data @ replicate 32 0)),
      cap_Unlock = (\<lambda>addr msg sig.
         (case (addr, sig) of
            (Ed25519Address h, Ed25519Signature pubKey _) \<Rightarrow>
              (if h = pubKey then None else Some ErrExternal)
          | _ \<Rightarrow> Some ErrSignatureAndAddrIncompatible))\<rparr>"

text \<open>The context with another output-side chain set.\<close>

definition with_OutChains ::
  "SemanticValidationContext \<Rightarrow> ChainConstrainedOutputsSet \<Rightarrow> SemanticValidationContext" where
  "with_OutChains svCtx outChains =
     svCtx\<lparr>WorkingSet := (WorkingSet svCtx)\<lparr>OutChains := outChains\<rparr>\<rparr>"

text \<open>
  An alias output with state controller \<open>addrA\<close> and governance controller \<open>addrB\<close>,
  by alias id and state index.
\<close>

definition alias_out :: "bytes \<Rightarrow> u32 \<Rightarrow> AliasOutput" where
  "alias_out aliasID stateIndex =
     \<lparr>alias_Amount = 1000000, alias_NativeTokens = [], alias_AliasID = aliasID,
      alias_StateController = addrA, alias_GovernanceController = addrB,
      alias_StateIndex = stateIndex, alias_StateMetadata = [], alias_FoundryCounter = 0,
      alias_Blocks = []\<rparr>"

definition aliasX :: bytes where
  "aliasX = replicate 20 3"

text \<open>
  An input that expires to its sender \<open>addrA\<close> at milestone index 5 and at time 100, and
  one that expires at time 100 only; both owned by \<open>addrB\<close>.
\<close>

definition expiring_both :: Output where
  "expiring_both =
     extended_out addrB 10
       [SenderFeatureBlock addrA, ExpirationMilestoneIndexFeatureBlock 5,
        ExpirationUnixFeatureBlock 100]"

definition expiring_unix :: Output where
  "expiring_unix =
     extended_out addrB 10 [SenderFeatureBlock addrA, ExpirationUnixFeatureBlock 100]"

text \<open>
  A transfer whose single input holds no native tokens and whose single output holds 5
  tokens of the id \<open>tokenT\<close>; neither side has a foundry.
\<close>

definition tokenT :: bytes where
  "tokenT = replicate 38 4"

definition token_out :: "Address \<Rightarrow> u64 \<Rightarrow> NativeToken list \<Rightarrow> Output" where
  "token_out a n nts =
     Extended \<lparr>ext_Address = a, ext_Amount = n, ext_NativeTokens = nts, ext_Blocks = []\<rparr>"

definition minting_scenario :: SemanticValidationContext where
  "minting_scenario =
     example_svCtx 0 0
       (transfer_tx [UTXOInput txidA 0]
          [token_out addrB 1000000 [\<lparr>nt_ID = tokenT, nt_Amount = 5\<rparr>]] [sigA])
       [((txidA, 0), token_out addrA 1000000 [])]"

text \<open>
  Stand-ins for the constants, the type tags and the element codecs, for the examples
  only. An input is encoded as its tag, the first byte of its transaction id and the low
  byte of its index; an output as its tag and the low byte of its deposit (decoded as a
  Simple output to \<open>addrB\<close>); an unlock block as its tag and one byte of public key.
\<close>

definition example_consts :: ProtocolConstants where
  "example_consts = \<lparr>TokenSupply = 2779530283277761, MaxNativeTokensCount = 256\<rparr>"

definition example_tags :: TypeTags where
  "example_tags =
     \<lparr>tag_PayloadTransaction = 0, tag_InputUTXO = 0,
      tag_Output = (\<lambda>ty. case ty of OutputSimple \<Rightarrow> 0 | OutputExtended \<Rightarrow> 3
                         | OutputAlias \<Rightarrow> 4 | OutputFoundry \<Rightarrow> 5 | OutputNFT \<Rightarrow> 6),
      tag_Indexation = 2\<rparr>"

definition example_encs :: Encoders where
  "example_encs =
     \<lparr>enc_Input = (\<lambda>m i. Inr [0, hd (fst (Ref i)), ucast (snd (Ref i))]),
      enc_Output = (\<lambda>m out. Inr [0, ucast (Deposit out)]),
      enc_Payload = (\<lambda>m p. Inr [2, 0, 0, 0]),
      enc_UnlockBlock = (\<lambda>m u. Inr [0, 1])\<rparr>"

definition example_decs :: Decoders where
  "example_decs =
     \<lparr>dec_Input = (\<lambda>m data.
         (case data of
            ty # a # b # rest \<Rightarrow> Inr (UTXOInput (replicate 32 a) (ucast b), rest)
          | _ \<Rightarrow> Inl (EncodingError ShortBuffer))),
      dec_Output = (\<lambda>m data.
         (case data of
            ty # n # rest \<Rightarrow> Inr (simple_out addrB (ucast n), rest)
          | _ \<Rightarrow> Inl (EncodingError ShortBuffer))),
      dec_Payload = (\<lambda>m data. Inl ErrExternal),
      dec_UnlockBlock = (\<lambda>m data.
         (case data of
            ty # a # rest \<Rightarrow>
              Inr (SignatureUnlockBlock (Ed25519Signature (replicate 32 a) (replicate 64 9)), rest)
          | _ \<Rightarrow> Inl (EncodingError ShortBuffer))),
      OutputsPredicateAddrUnique = (\<lambda>i outs. None)\<rparr>"


definition txidB :: TransactionID where
  "txidB = replicate 32 8"

definition many_inputs :: "Input list" where
  "many_inputs = map (\<lambda>i. UTXOInput txidA (of_nat i)) [0..<127] @ [UTXOInput txidB 0]"

definition big_tx :: Transaction where
  "big_tx = transfer_tx many_inputs [simple_out addrB 1000000] [sigA]"

text \<open>
  The bytes of a transaction with one input, one output, no payload and one unlock block
  under the stand-in codecs.
\<close>

definition small_tx_bytes :: bytes where
  "small_tx_bytes =
     [0, 0, 0, 0,  0,  1, 0,  0, 7, 0,  1, 0,  0, 5,  0, 0, 0, 0,  1, 0,  0, 1]"






text \<open>
  Deserialization parameters with no dust deposit and no rent; and a transaction with one
  input, 128 outputs and one unlock block.
\<close>

definition example_paras :: DeSerializationParameters where
  "example_paras = \<lparr>MinDustDeposit = 0, RentStructure = (0, 0, 0)\<rparr>"

definition broad_tx :: Transaction where
  "broad_tx = transfer_tx [UTXOInput txidA 0] (replicate 128 (simple_out addrB 1)) [sigA]"
chapter \<open>Verified properties\<close>

section \<open>Properties of the timelock step\<close>

lemma timelock_blocks_iff:
  "timelock_blocks svCtx bs =
     (if list_ex (timelocked svCtx) bs then Some ErrInvalidInputUnlock else None)"
  by (induction svCtx bs rule: timelock_blocks.induct) auto

lemma timelock_inputs_iff:
  "timelock_inputs svCtx ins =
     (if list_ex (\<lambda>e. carries_timelocked svCtx (snd e)) ins then Some ErrInvalidInputUnlock
      else None)"
  by (induction svCtx ins rule: timelock_inputs.induct)
     (auto simp: carries_timelocked_def timelock_blocks_iff split: option.splits)

lemma timelocked_iff:
  "timelocked svCtx b \<longleftrightarrow>
     (\<exists>idx. b = TimelockMilestoneIndexFeatureBlock idx \<and> ConfirmingMilestoneIndex svCtx < idx) \<or>
     (\<exists>ts. b = TimelockUnixFeatureBlock ts \<and> ConfirmingMilestoneUnix svCtx < ts)"
  by (cases b) auto

lemma list_ex_carries_timelocked:
  "list_ex (\<lambda>e. carries_timelocked svCtx (snd e)) ins \<longleftrightarrow>
     (\<exists>oid input blocks. (oid, input) \<in> set ins \<and>
        FeatureBlocks_of input = Some blocks \<and>
        ((\<exists>idx. TimelockMilestoneIndexFeatureBlock idx \<in> set blocks \<and>
            ConfirmingMilestoneIndex svCtx < idx) \<or>
         (\<exists>ts. TimelockUnixFeatureBlock ts \<in> set blocks \<and>
            ConfirmingMilestoneUnix svCtx < ts)))"
  (is "?L \<longleftrightarrow> ?R")
proof
  assume ?L
  then obtain oid input where m: "(oid, input) \<in> set ins"
    and c: "carries_timelocked svCtx input"
    by (auto simp: list_ex_iff)
  from c obtain blocks b where fb: "FeatureBlocks_of input = Some blocks"
    and b: "b \<in> set blocks" "timelocked svCtx b"
    by (auto simp: carries_timelocked_def list_ex_iff split: option.splits)
  from b m fb show ?R unfolding timelocked_iff by blast
next
  assume ?R
  then obtain oid input blocks b where m: "(oid, input) \<in> set ins"
    and fb: "FeatureBlocks_of input = Some blocks"
    and b: "b \<in> set blocks" "timelocked svCtx b"
    unfolding timelocked_iff by blast
  then have "carries_timelocked svCtx input"
    by (auto simp: carries_timelocked_def list_ex_iff)
  with m show ?L by (force simp: list_ex_iff)
qed

text \<open>
  C8. The Timelock step returns \<open>ErrInvalidInputUnlock\<close> exactly when some entry of the
  input set carries a \<open>TimelockMilestoneIndex(idx)\<close> feature block with the confirming
  milestone index below \<open>idx\<close>, or a \<open>TimelockUnix(ts)\<close> feature block with the confirming
  milestone time below \<open>ts\<close>; it has no other failure, so it passes in every other case,
  in particular when the confirming time equals \<open>ts\<close>.
\<close>

theorem C8_timelock_fails_iff_unexpired:
  "(TxSemanticTimelock svCtx = Some ErrInvalidInputUnlock \<longleftrightarrow>
      (\<exists>oid input blocks. (oid, input) \<in> set (InputSet (WorkingSet svCtx)) \<and>
         FeatureBlocks_of input = Some blocks \<and>
         ((\<exists>idx. TimelockMilestoneIndexFeatureBlock idx \<in> set blocks \<and>
             ConfirmingMilestoneIndex svCtx < idx) \<or>
          (\<exists>ts. TimelockUnixFeatureBlock ts \<in> set blocks \<and>
             ConfirmingMilestoneUnix svCtx < ts))))
   \<and> (TxSemanticTimelock svCtx = None \<or> TxSemanticTimelock svCtx = Some ErrInvalidInputUnlock)"
proof -
  have "TxSemanticTimelock svCtx =
      (if list_ex (\<lambda>e. carries_timelocked svCtx (snd e)) (InputSet (WorkingSet svCtx))
       then Some ErrInvalidInputUnlock else None)"
    by (simp add: TxSemanticTimelock_def timelock_inputs_iff)
  then show ?thesis
    unfolding list_ex_carries_timelocked by auto
qed

text \<open>
  Scenario 6 of the spec: at confirming time 1_699_999_999 the step fails, at
  1_700_000_000 it passes.
\<close>

theorem C8_timelock_witness:
  "TxSemanticTimelock (timelock_scenario 1699999999) = Some ErrInvalidInputUnlock
   \<and> TxSemanticTimelock (timelock_scenario 1700000000) = None"
  using C8_timelock_fails_iff_unexpired [of "timelock_scenario 1699999999"]
    C8_timelock_fails_iff_unexpired [of "timelock_scenario 1700000000"]
  by (simp add: TxSemanticTimelock_def timelock_scenario_def example_svCtx_def
      example_workingSet_def extended_out_def)

section \<open>Properties of the deposit-balance step\<close>

lemma sum_add_keys: "fst ` set (sum_add m k v) = insert k (fst ` set m)"
  by (induction m k v rule: sum_add.induct) auto

lemma sum_add_distinct: "distinct (map fst m) \<Longrightarrow> distinct (map fst (sum_add m k v))"
  by (induction m k v rule: sum_add.induct) (auto simp: sum_add_keys)

lemma map_of_sum_add:
  "map_of (sum_add m k v) k' = (if k' = k then Some (val_of m k + v) else map_of m k')"
  by (induction m k v rule: sum_add.induct) (auto simp: val_of_def)

lemma add_all_simps [simp]:
  "add_all [] m = m"
  "add_all (e # es) m = add_all es (sum_add m (fst e) (snd e))"
  by (simp_all add: add_all_def)

lemma add_all_keys: "fst ` set (add_all es m) = fst ` set es \<union> fst ` set m"
  by (induction es arbitrary: m) (auto simp: sum_add_keys)

lemma add_all_distinct: "distinct (map fst m) \<Longrightarrow> distinct (map fst (add_all es m))"
  by (induction es arbitrary: m) (auto simp: sum_add_distinct)

lemma val_of_sum_add: "val_of (sum_add m k v) k' = (if k' = k then val_of m k + v else val_of m k')"
  by (simp add: val_of_def map_of_sum_add)

lemma val_of_add_all: "val_of (add_all es m) k = val_of m k + amount_for k es"
  by (induction es arbitrary: m) (auto simp: val_of_sum_add amount_for_def)

lemma map_of_add_all:
  "map_of (add_all es m) k =
     (if k \<in> fst ` set es \<union> fst ` set m then Some (val_of m k + amount_for k es) else None)"
proof (cases "k \<in> fst ` set (add_all es m)")
  case True
  then obtain v where "map_of (add_all es m) k = Some v"
    by (metis domD dom_map_of_conv_image_fst)
  moreover from this have "v = val_of (add_all es m) k" by (simp add: val_of_def)
  ultimately show ?thesis using True by (simp add: val_of_add_all add_all_keys)
next
  case False
  then have "map_of (add_all es m) k = None"
    by (metis domIff dom_map_of_conv_image_fst)
  with False show ?thesis by (simp add: add_all_keys)
qed

lemma Set_from_char:
  "FeatureBlocks_Set_from s0 bs =
     (if distinct (map FeatureBlock_Type bs) \<and> (\<forall>b \<in> set bs. s0 (FeatureBlock_Type b) = None)
      then Inr (\<lambda>ty. case find (\<lambda>b. FeatureBlock_Type b = ty) bs of Some b \<Rightarrow> Some b | None \<Rightarrow> s0 ty)
      else Inl ErrNonUniqueFeatureBlocks)"
proof (induction bs arbitrary: s0)
  case Nil
  then show ?case by simp
next
  case (Cons b bs)
  show ?case
  proof (cases "s0 (FeatureBlock_Type b)")
    case (Some a)
    then show ?thesis by auto
  next
    case None
    have eq: "(\<forall>x \<in> set bs. (s0(FeatureBlock_Type b \<mapsto> b)) (FeatureBlock_Type x) = None) \<longleftrightarrow>
      FeatureBlock_Type b \<notin> FeatureBlock_Type ` set bs \<and> (\<forall>x \<in> set bs. s0 (FeatureBlock_Type x) = None)"
      by (auto simp: image_iff)
    have nf: "FeatureBlock_Type b \<notin> FeatureBlock_Type ` set bs \<Longrightarrow>
        find (\<lambda>x. FeatureBlock_Type x = FeatureBlock_Type b) bs = None"
    proof -
      assume a: "FeatureBlock_Type b \<notin> FeatureBlock_Type ` set bs"
      have "\<And>x. x \<in> set bs \<Longrightarrow> FeatureBlock_Type x \<noteq> FeatureBlock_Type b"
        using a by (metis imageI)
      then show ?thesis by (simp add: find_None_iff)
    qed
    show ?thesis
      using None
      apply (simp add: Cons.IH eq del: fun_upd_apply)
      apply (auto simp: fun_eq_iff nf split: option.splits)
      done
  qed
qed

lemma Set_char:
  "FeatureBlocks_Set bs =
     (if distinct (map FeatureBlock_Type bs)
      then Inr (\<lambda>ty. find (\<lambda>b. FeatureBlock_Type b = ty) bs)
      else Inl ErrNonUniqueFeatureBlocks)"
  by (auto simp: FeatureBlocks_Set_def Set_from_char fun_eq_iff split: option.splits)

lemma isReturnBlock_Type: "isReturnBlock b \<longleftrightarrow> FeatureBlock_Type b = FeatureBlockDustDepositReturn"
  by (cases b) auto

lemma isSenderBlock_Type: "isSenderBlock b \<longleftrightarrow> FeatureBlock_Type b = FeatureBlockSender"
  by (cases b) auto

lemma find_return: "find (\<lambda>b. FeatureBlock_Type b = FeatureBlockDustDepositReturn) bs = find isReturnBlock bs"
proof -
  have "(\<lambda>b. FeatureBlock_Type b = FeatureBlockDustDepositReturn) = isReturnBlock"
    by (simp add: fun_eq_iff isReturnBlock_Type)
  then show ?thesis by simp
qed

lemma find_sender: "find (\<lambda>b. FeatureBlock_Type b = FeatureBlockSender) bs = find isSenderBlock bs"
proof -
  have "(\<lambda>b. FeatureBlock_Type b = FeatureBlockSender) = isSenderBlock"
    by (simp add: fun_eq_iff isSenderBlock_Type)
  then show ?thesis by simp
qed

lemma find_isReturn_cases:
  "find isReturnBlock bs = None \<or> (\<exists>a. find isReturnBlock bs = Some (DustDepositReturnFeatureBlock a))"
proof (cases "find isReturnBlock bs")
  case None then show ?thesis by simp
next
  case (Some b)
  then have "isReturnBlock b" by (auto simp: find_Some_iff)
  with Some show ?thesis by (cases b) auto
qed

lemma find_isSender_cases:
  "find isSenderBlock bs = None \<or> (\<exists>a. find isSenderBlock bs = Some (SenderFeatureBlock a))"
proof (cases "find isSenderBlock bs")
  case None then show ?thesis by simp
next
  case (Some b)
  then have "isSenderBlock b" by (auto simp: find_Some_iff)
  with Some show ?thesis by (cases b) auto
qed

lemma find_None_list_ex: "find P xs = None \<longleftrightarrow> \<not> list_ex P xs"
  by (auto simp: find_None_iff list_ex_iff)

lemma deposit_inputs_step:
  assumes "wf_blocks input"
  shows "deposit_inputs inSum returns ((oid, input) # rest) =
     deposit_inputs (inSum + Deposit input)
       (case declared_return input of None \<Rightarrow> returns | Some e \<Rightarrow> sum_add returns (fst e) (snd e)) rest"
proof (cases "FeatureBlocks_of input")
  case None
  then show ?thesis by (simp add: declared_return_def)
next
  case (Some blocks)
  with assms have d: "distinct (map FeatureBlock_Type blocks)"
    and s: "list_ex isReturnBlock blocks \<longrightarrow> list_ex isSenderBlock blocks"
    by (simp_all add: wf_blocks_def)
  consider (none) "find isReturnBlock blocks = None"
    | (some) a where "find isReturnBlock blocks = Some (DustDepositReturnFeatureBlock a)"
    using find_isReturn_cases [of blocks] by auto
  then show ?thesis
  proof cases
    case none
    then show ?thesis
      by (simp add: Some d Set_char find_return declared_return_def)
  next
    case some
    then have "list_ex isReturnBlock blocks"
      using find_None_list_ex [of isReturnBlock blocks] by auto
    with s have "find isSenderBlock blocks \<noteq> None"
      using find_None_list_ex [of isSenderBlock blocks] by auto
    then obtain addr where "find isSenderBlock blocks = Some (SenderFeatureBlock addr)"
      using find_isSender_cases [of blocks] by auto
    with some show ?thesis
      by (simp add: Some d Set_char find_return find_sender declared_return_def)
  qed
qed

lemma deposit_inputs_char:
  assumes "\<forall>e \<in> set ins. wf_blocks (snd e)"
  shows "deposit_inputs inSum returns ins =
     Inr (inSum + sum_list (map (\<lambda>e. Deposit (snd e)) ins), add_all (declared_returns ins) returns)"
  using assms
proof (induction ins arbitrary: inSum returns)
  case Nil
  then show ?case by (simp add: declared_returns_def map_filter_simps)
next
  case (Cons e ins)
  obtain oid input where e: "e = (oid, input)" by (cases e)
  from Cons.prems have wf: "wf_blocks input" and rest: "\<forall>e \<in> set ins. wf_blocks (snd e)"
    by (simp_all add: e)
  show ?case
    unfolding e deposit_inputs_step [OF wf] Cons.IH [OF rest]
    by (cases "declared_return input") (simp_all add: declared_returns_def map_filter_simps add.assoc)
qed

lemma deposit_outputs_char:
  "deposit_outputs outSum transfers outs =
     (outSum + sum_list (map Deposit outs), add_all (plain_transfers outs) transfers)"
proof (induction outSum transfers outs rule: deposit_outputs.induct)
  case (1 outSum transfers)
  then show ?case by (simp add: plain_transfers_def map_filter_simps)
qed (simp_all add: plain_transfers_def map_filter_simps add.assoc)

lemma deposit_returns_char:
  "deposit_returns rs ts =
     (if \<forall>e \<in> set rs. \<exists>outSum. map_of ts (fst e) = Some outSum \<and> snd e \<le> outSum
      then None else Some ErrReturnAmountNotFulFilled)"
  by (induction rs ts rule: deposit_returns.induct) (auto split: option.splits simp: not_less)


lemma unat_sum_list_u64:
  "unat (sum_list (ws :: u64 list)) = sum_list (map unat ws) mod 2 ^ 64"
proof (induction ws)
  case Nil
  then show ?case by simp
next
  case (Cons w ws)
  have "unat (w + sum_list ws) = (unat w + unat (sum_list ws)) mod 2 ^ 64"
    by (simp add: unat_word_ariths)
  also have "\<dots> = (unat w + sum_list (map unat ws) mod 2 ^ 64) mod 2 ^ 64"
    by (simp add: Cons.IH)
  also have "\<dots> = (unat w + sum_list (map unat ws)) mod 2 ^ 64"
    by (simp add: mod_add_right_eq)
  finally show ?case by simp
qed

lemma returns_balance_iff:
  "(\<forall>e \<in> set (add_all drs []). \<exists>outSum. map_of (add_all pts []) (fst e) = Some outSum \<and> snd e \<le> outSum)
   \<longleftrightarrow> (\<forall>ident \<in> fst ` set drs. ident \<in> fst ` set pts \<and> amount_for ident drs \<le> amount_for ident pts)"
  (is "?L \<longleftrightarrow> ?R")
proof -
  have d: "distinct (map fst (add_all drs []))"
    by (rule add_all_distinct) simp
  have mem: "\<And>k v. (k, v) \<in> set (add_all drs []) \<longleftrightarrow> k \<in> fst ` set drs \<and> v = amount_for k drs"
  proof -
    fix k v
    have "(k, v) \<in> set (add_all drs []) \<longleftrightarrow> map_of (add_all drs []) k = Some v"
      using d by simp
    also have "\<dots> \<longleftrightarrow> k \<in> fst ` set drs \<and> v = amount_for k drs"
      by (auto simp: map_of_add_all val_of_def)
    finally show "(k, v) \<in> set (add_all drs []) \<longleftrightarrow> k \<in> fst ` set drs \<and> v = amount_for k drs" .
  qed
  have tr: "\<And>k outSum. map_of (add_all pts []) k = Some outSum \<longleftrightarrow>
      k \<in> fst ` set pts \<and> outSum = amount_for k pts"
    by (auto simp: map_of_add_all val_of_def)
  show ?thesis
  proof
    assume l: ?L
    show ?R
    proof
      fix ident assume i: "ident \<in> fst ` set drs"
      then have "(ident, amount_for ident drs) \<in> set (add_all drs [])" by (simp add: mem)
      with l obtain outSum where "map_of (add_all pts []) ident = Some outSum"
        and "amount_for ident drs \<le> outSum" by fastforce
      then show "ident \<in> fst ` set pts \<and> amount_for ident drs \<le> amount_for ident pts"
        by (simp add: tr)
    qed
  next
    assume r: ?R
    show ?L
    proof
      fix e assume e: "e \<in> set (add_all drs [])"
      obtain k v where kv: "e = (k, v)" by (cases e)
      with e have k: "k \<in> fst ` set drs" and v: "v = amount_for k drs" by (simp_all add: mem)
      from r k have "k \<in> fst ` set pts" and "amount_for k drs \<le> amount_for k pts" by auto
      then show "\<exists>outSum. map_of (add_all pts []) (fst e) = Some outSum \<and> snd e \<le> outSum"
        by (simp add: kv v tr)
    qed
  qed
qed

lemma TxSemanticDeposit_char:
  assumes wf: "\<forall>e \<in> set (InputSet (WorkingSet svCtx)). wf_blocks (snd e)"
    and ess: "Essence (Tx (WorkingSet svCtx)) = Some essence"
  shows "TxSemanticDeposit svCtx =
     (if sum_list (map (\<lambda>e. Deposit (snd e)) (InputSet (WorkingSet svCtx)))
           \<noteq> sum_list (map Deposit (Outputs essence))
      then Some ErrInputOutputSumMismatch
      else if (\<forall>ident \<in> fst ` set (declared_returns (InputSet (WorkingSet svCtx))).
                 ident \<in> fst ` set (plain_transfers (Outputs essence)) \<and>
                 amount_for ident (declared_returns (InputSet (WorkingSet svCtx)))
                   \<le> amount_for ident (plain_transfers (Outputs essence)))
      then None
      else Some ErrReturnAmountNotFulFilled)"
proof -
  let ?drs = "declared_returns (InputSet (WorkingSet svCtx))"
  let ?pts = "plain_transfers (Outputs essence)"
  have dr: "deposit_returns (add_all ?drs []) (add_all ?pts []) =
      (if (\<forall>ident \<in> fst ` set ?drs. ident \<in> fst ` set ?pts \<and>
             amount_for ident ?drs \<le> amount_for ident ?pts)
       then None else Some ErrReturnAmountNotFulFilled)"
    by (simp only: deposit_returns_char returns_balance_iff)
  have "TxSemanticDeposit svCtx =
      (if sum_list (map (\<lambda>e. Deposit (snd e)) (InputSet (WorkingSet svCtx)))
            \<noteq> sum_list (map Deposit (Outputs essence))
       then Some ErrInputOutputSumMismatch
       else deposit_returns (add_all ?drs []) (add_all ?pts []))"
    by (simp add: TxSemanticDeposit_def deposit_inputs_char [OF wf] deposit_outputs_char ess)
  then show ?thesis by (simp only: dr)
qed

lemma deposit_inputs_Cons_Inr:
  "deposit_inputs inSum returns ((oid, input) # rest) = Inr x \<Longrightarrow>
     \<exists>returns'. deposit_inputs (inSum + Deposit input) returns' rest = Inr x"
  by (simp split: option.splits sum.splits FeatureBlock.splits) blast+

lemma deposit_inputs_sum:
  "deposit_inputs inSum returns ins = Inr (s, r) \<Longrightarrow>
     s = inSum + sum_list (map (\<lambda>e. Deposit (snd e)) ins)"
proof (induction ins arbitrary: inSum returns)
  case Nil
  then show ?case by simp
next
  case (Cons e ins)
  obtain oid input where e: "e = (oid, input)" by (cases e)
  from Cons.prems obtain returns' where
    "deposit_inputs (inSum + Deposit input) returns' ins = Inr (s, r)"
    unfolding e by (blast dest: deposit_inputs_Cons_Inr)
  then have "s = (inSum + Deposit input) + sum_list (map (\<lambda>e. Deposit (snd e)) ins)"
    by (rule Cons.IH)
  then show ?case by (simp add: e add.assoc)
qed

lemma deposit_inputs_Cons_wf:
  assumes "deposit_inputs inSum returns ((oid, input) # rest) = Inr x"
  shows "wf_blocks input"
proof (cases "FeatureBlocks_of input")
  case None
  then show ?thesis by (simp add: wf_blocks_def)
next
  case (Some blocks)
  have d: "distinct (map FeatureBlock_Type blocks)"
    using assms by (auto simp: Some Set_char split: if_splits)
  have "list_ex isSenderBlock blocks" if r: "list_ex isReturnBlock blocks"
  proof -
    from r obtain rb where rb: "find isReturnBlock blocks = Some rb"
      using find_None_list_ex [of isReturnBlock blocks] by auto
    have "find isSenderBlock blocks \<noteq> None"
      using assms by (auto simp: Some d Set_char find_return find_sender rb split: option.splits)
    then show ?thesis
      using find_None_list_ex [of isSenderBlock blocks] by auto
  qed
  with d show ?thesis by (simp add: wf_blocks_def Some)
qed

lemma deposit_inputs_Inr_wf:
  "deposit_inputs inSum returns ins = Inr x \<Longrightarrow> \<forall>e \<in> set ins. wf_blocks (snd e)"
proof (induction ins arbitrary: inSum returns)
  case Nil
  then show ?case by simp
next
  case (Cons e ins)
  obtain oid input where e: "e = (oid, input)" by (cases e)
  from Cons.prems have wf: "wf_blocks input"
    unfolding e by (rule deposit_inputs_Cons_wf)
  from Cons.prems obtain returns' where
    "deposit_inputs (inSum + Deposit input) returns' ins = Inr x"
    unfolding e by (blast dest: deposit_inputs_Cons_Inr)
  then have "\<forall>e \<in> set ins. wf_blocks (snd e)" by (rule Cons.IH)
  with wf show ?case by (simp add: e)
qed

lemma TxSemanticDeposit_None_wf:
  assumes "TxSemanticDeposit svCtx = None"
  shows "\<forall>e \<in> set (InputSet (WorkingSet svCtx)). wf_blocks (snd e)"
proof -
  from assms obtain x where "deposit_inputs 0 [] (InputSet (WorkingSet svCtx)) = Inr x"
    by (auto simp: TxSemanticDeposit_def split: sum.splits)
  then show ?thesis by (rule deposit_inputs_Inr_wf)
qed

lemma TxSemanticDeposit_None_Essence:
  assumes "TxSemanticDeposit svCtx = None"
  shows "\<exists>essence. Essence (Tx (WorkingSet svCtx)) = Some essence"
  using assms by (auto simp: TxSemanticDeposit_def split: sum.splits option.splits)

lemma word_sums_differ_iff:
  "sum_list (map f xs) \<noteq> (sum_list (map g ys) :: u64) \<longleftrightarrow>
     sum_list (map (\<lambda>x. unat (f x)) xs) mod 2 ^ 64 \<noteq> sum_list (map (\<lambda>y. unat (g y)) ys) mod 2 ^ 64"
proof -
  have "sum_list (map f xs) = sum_list (map g ys) \<longleftrightarrow>
      unat (sum_list (map f xs)) = unat (sum_list (map g ys))"
    by (simp add: word_unat_eq_iff)
  then show ?thesis
    by (simp add: unat_sum_list_u64 comp_def)
qed

text \<open>
  C3, as the code has it. The deposit sums of the Deposit-balance step are plain
  \<open>uint64\<close> additions: no overflow is detected. On an input set with well-formed feature
  blocks the step reports \<open>ErrInputOutputSumMismatch\<close> exactly when the input-side and
  output-side sums differ modulo \<open>2^64\<close>, and its only results are success,
  \<open>ErrInputOutputSumMismatch\<close> and \<open>ErrReturnAmountNotFulFilled\<close>: there is no overflow
  error.
\<close>

theorem C3_deposit_sums_wrap_without_overflow_check:
  assumes "\<forall>e \<in> set (InputSet (WorkingSet svCtx)). wf_blocks (snd e)"
    and "Essence (Tx (WorkingSet svCtx)) = Some essence"
  shows "(TxSemanticDeposit svCtx = Some ErrInputOutputSumMismatch \<longleftrightarrow>
            (\<Sum>e\<leftarrow>InputSet (WorkingSet svCtx). unat (Deposit (snd e))) mod 2 ^ 64
              \<noteq> (\<Sum>out\<leftarrow>Outputs essence. unat (Deposit out)) mod 2 ^ 64)
         \<and> (TxSemanticDeposit svCtx = None
              \<or> TxSemanticDeposit svCtx = Some ErrInputOutputSumMismatch
              \<or> TxSemanticDeposit svCtx = Some ErrReturnAmountNotFulFilled)"
  unfolding TxSemanticDeposit_char [OF assms]
  using word_sums_differ_iff [of "\<lambda>e. Deposit (snd e)" "InputSet (WorkingSet svCtx)" Deposit "Outputs essence"]
  by auto

text \<open>
  C3 as stated fails: the input deposits \<open>2^63\<close> and \<open>2^63 + 5\<close> add up to \<open>2^64 + 5\<close>,
  which overflows \<open>uint64\<close>; the sum wraps to 5, equals the output side, and the step
  passes.
\<close>

theorem C3_counterexample:
  "(\<Sum>e\<leftarrow>InputSet (WorkingSet overflow_scenario). unat (Deposit (snd e))) = 2 ^ 64 + 5
   \<and> (\<Sum>out\<leftarrow>Outputs (the (Essence (Tx (WorkingSet overflow_scenario)))). unat (Deposit out)) = 5
   \<and> TxSemanticDeposit overflow_scenario = None"
  by (simp add: overflow_scenario_def example_svCtx_def example_workingSet_def transfer_tx_def
      simple_out_def TxSemanticDeposit_def addrA_def addrB_def)

text \<open>The overflowing scenario, through the theorem: the wrapped sums agree.\<close>

theorem C3_witness:
  "(\<Sum>e\<leftarrow>InputSet (WorkingSet overflow_scenario). unat (Deposit (snd e))) mod 2 ^ 64 = 5
   \<and> TxSemanticDeposit overflow_scenario \<noteq> Some ErrInputOutputSumMismatch"
  using C3_deposit_sums_wrap_without_overflow_check [of overflow_scenario
      "\<lparr>Inputs = [UTXOInput txidA 0, UTXOInput txidA 1], Outputs = [simple_out addrB 5], Payload = None\<rparr>"]
  by (simp add: overflow_scenario_def example_svCtx_def example_workingSet_def transfer_tx_def
      simple_out_def wf_blocks_def)

text \<open>
  C4, as the code has it. On an input set with well-formed feature blocks, the
  Deposit-balance step fails with \<open>ErrInputOutputSumMismatch\<close> when the \<open>uint64\<close> sums of
  the input and output deposits differ; otherwise it passes exactly when, for every
  identity that is the sender of a \<open>DustDepositReturnFeatureBlock\<close> on some input, there
  is a plain value transfer to that identity among the outputs and the \<open>uint64\<close> sum of
  the plain transfers to it is at least the \<open>uint64\<close> sum of the returns declared for it;
  otherwise it fails with \<open>ErrReturnAmountNotFulFilled\<close>.
\<close>

theorem C4_deposit_balance:
  assumes "\<forall>e \<in> set (InputSet (WorkingSet svCtx)). wf_blocks (snd e)"
    and "Essence (Tx (WorkingSet svCtx)) = Some essence"
  shows "TxSemanticDeposit svCtx =
     (if sum_list (map (\<lambda>e. Deposit (snd e)) (InputSet (WorkingSet svCtx)))
           \<noteq> sum_list (map Deposit (Outputs essence))
      then Some ErrInputOutputSumMismatch
      else if (\<forall>ident \<in> fst ` set (declared_returns (InputSet (WorkingSet svCtx))).
                 ident \<in> fst ` set (plain_transfers (Outputs essence)) \<and>
                 amount_for ident (declared_returns (InputSet (WorkingSet svCtx)))
                   \<le> amount_for ident (plain_transfers (Outputs essence)))
      then None
      else Some ErrReturnAmountNotFulFilled)"
  using assms by (rule TxSemanticDeposit_char)

text \<open>
  C4 as stated fails: the input declares a return of 0 tokens to \<open>addrA\<close>, the sums of
  the deposits agree, the plain transfers to \<open>addrA\<close> add up to 0, which is not below the
  declared return; yet the step fails with \<open>ErrReturnAmountNotFulFilled\<close>, because no
  output pays \<open>addrA\<close>.
\<close>

theorem C4_counterexample:
  "sum_list (map (\<lambda>e. Deposit (snd e)) (InputSet (WorkingSet zero_return_scenario)))
     = sum_list (map Deposit (Outputs (the (Essence (Tx (WorkingSet zero_return_scenario))))))
   \<and> declared_returns (InputSet (WorkingSet zero_return_scenario)) = [(Address_Key addrA, 0)]
   \<and> amount_for (Address_Key addrA)
        (plain_transfers (Outputs (the (Essence (Tx (WorkingSet zero_return_scenario)))))) = 0
   \<and> TxSemanticDeposit zero_return_scenario = Some ErrReturnAmountNotFulFilled"
  by (simp add: zero_return_scenario_def example_svCtx_def example_workingSet_def transfer_tx_def
      simple_out_def extended_out_def TxSemanticDeposit_def addrA_def addrB_def
      declared_returns_def declared_return_def plain_transfers_def amount_for_def
      map_filter_simps FeatureBlocks_Set_def)

text \<open>A fulfilled return of 4 tokens passes; the return of 0 with no output fails.\<close>

theorem C4_witness:
  "TxSemanticDeposit return_scenario = None
   \<and> TxSemanticDeposit zero_return_scenario = Some ErrReturnAmountNotFulFilled"
  using C4_deposit_balance [of return_scenario
      "\<lparr>Inputs = [UTXOInput txidA 0], Outputs = [simple_out addrA 4, simple_out addrB 6], Payload = None\<rparr>"]
    C4_deposit_balance [of zero_return_scenario
      "\<lparr>Inputs = [UTXOInput txidA 0], Outputs = [simple_out addrB 10], Payload = None\<rparr>"]
  by (simp add: return_scenario_def zero_return_scenario_def example_svCtx_def
      example_workingSet_def transfer_tx_def
      simple_out_def extended_out_def TxSemanticDeposit_def addrA_def addrB_def
      FeatureBlocks_Set_def)

lemma TxSemanticDeposit_with_TxInputs:
  "TxSemanticDeposit (with_TxInputs svCtx ins) = TxSemanticDeposit svCtx"
  by (cases "Essence (Tx (WorkingSet svCtx))")
     (simp_all add: TxSemanticDeposit_def with_TxInputs_def split: sum.splits)

lemma TxSemanticTimelock_with_TxInputs:
  "TxSemanticTimelock (with_TxInputs svCtx ins) = TxSemanticTimelock svCtx"
proof -
  have "\<And>bs. timelock_blocks (with_TxInputs svCtx ins) bs = timelock_blocks svCtx bs"
  proof -
    fix bs show "timelock_blocks (with_TxInputs svCtx ins) bs = timelock_blocks svCtx bs"
      by (induction svCtx bs rule: timelock_blocks.induct) (simp_all add: with_TxInputs_def)
  qed
  then have "\<And>es. timelock_inputs (with_TxInputs svCtx ins) es = timelock_inputs svCtx es"
  proof -
    fix es
    assume a: "\<And>bs. timelock_blocks (with_TxInputs svCtx ins) bs = timelock_blocks svCtx bs"
    show "timelock_inputs (with_TxInputs svCtx ins) es = timelock_inputs svCtx es"
      by (induction es) (auto simp: a split: option.splits)
  qed
  then show ?thesis by (simp add: TxSemanticTimelock_def with_TxInputs_def)
qed

lemma TxSemanticDeposit_extra_entry:
  assumes pass: "TxSemanticDeposit svCtx = None"
    and split: "InputSet (WorkingSet svCtx) = pre @ post"
    and nz: "Deposit extra \<noteq> 0"
    and wf: "wf_blocks extra"
  shows "TxSemanticDeposit (with_InputSet svCtx (pre @ (oid, extra) # post))
           = Some ErrInputOutputSumMismatch"
proof -
  let ?new = "with_InputSet svCtx (pre @ (oid, extra) # post)"
  from pass obtain essence where ess: "Essence (Tx (WorkingSet svCtx)) = Some essence"
    using TxSemanticDeposit_None_Essence by blast
  have wf_old: "\<forall>e \<in> set (InputSet (WorkingSet svCtx)). wf_blocks (snd e)"
    using pass by (rule TxSemanticDeposit_None_wf)
  have bal: "sum_list (map (\<lambda>e. Deposit (snd e)) (pre @ post)) = sum_list (map Deposit (Outputs essence))"
    using pass unfolding TxSemanticDeposit_char [OF wf_old ess] split
    by (simp split: if_splits)
  have wf_new: "\<forall>e \<in> set (InputSet (WorkingSet ?new)). wf_blocks (snd e)"
    using wf_old wf by (auto simp: with_InputSet_def split)
  have ess_new: "Essence (Tx (WorkingSet ?new)) = Some essence"
    by (simp add: with_InputSet_def ess)
  have ins_new: "InputSet (WorkingSet ?new) = pre @ (oid, extra) # post"
    by (simp add: with_InputSet_def)
  define a where "a = sum_list (map (\<lambda>e. Deposit (snd e)) (pre @ post))"
  define b where "b = sum_list (map Deposit (Outputs essence))"
  define c where "c = sum_list (map (\<lambda>e. Deposit (snd e)) (pre @ (oid, extra) # post))"
  have "c = a + Deposit extra" by (simp add: a_def c_def algebra_simps)
  moreover have "a = b" using bal by (simp only: a_def b_def)
  ultimately have "c \<noteq> b" using nz by simp
  then have "sum_list (map (\<lambda>e. Deposit (snd e)) (pre @ (oid, extra) # post))
      \<noteq> sum_list (map Deposit (Outputs essence))"
    unfolding c_def b_def .
  then show ?thesis
    unfolding TxSemanticDeposit_char [OF wf_new ess_new] ins_new by (rule if_P)
qed

text \<open>
  C9. The Deposit-balance and Timelock steps range over every entry of the
  caller-supplied input set, whether the transaction's inputs reference it or not: the
  input-side deposit sum is the sum of the deposits of all entries; an unexpired
  timelock on any entry fails the Timelock step; neither step changes when the
  transaction's inputs are replaced by any others. So when a transaction passes the
  Deposit-balance step, adding to the input set an entry that no input references, with
  a non-zero deposit and well-formed feature blocks, makes the step fail with
  \<open>ErrInputOutputSumMismatch\<close>.
\<close>

theorem C9_steps_range_over_whole_input_set:
  "(deposit_inputs 0 [] (InputSet (WorkingSet svCtx)) = Inr (inSum, returns) \<longrightarrow>
      inSum = sum_list (map (\<lambda>e. Deposit (snd e)) (InputSet (WorkingSet svCtx))))
   \<and> ((oid', input) \<in> set (InputSet (WorkingSet svCtx)) \<and> carries_timelocked svCtx input \<longrightarrow>
        TxSemanticTimelock svCtx = Some ErrInvalidInputUnlock)
   \<and> TxSemanticDeposit (with_TxInputs svCtx ins) = TxSemanticDeposit svCtx
   \<and> TxSemanticTimelock (with_TxInputs svCtx ins) = TxSemanticTimelock svCtx
   \<and> (TxSemanticDeposit svCtx = None \<and> InputSet (WorkingSet svCtx) = pre @ post \<and>
        oid \<notin> fst ` set (pre @ post) \<and>
        (\<forall>essence. Essence (Tx (WorkingSet svCtx)) = Some essence \<longrightarrow> oid \<notin> Ref ` set (Inputs essence)) \<and>
        Deposit extra \<noteq> 0 \<and> wf_blocks extra \<longrightarrow>
        TxSemanticDeposit (with_InputSet svCtx (pre @ (oid, extra) # post))
          = Some ErrInputOutputSumMismatch)"
proof (intro conjI impI)
  assume "deposit_inputs 0 [] (InputSet (WorkingSet svCtx)) = Inr (inSum, returns)"
  then show "inSum = sum_list (map (\<lambda>e. Deposit (snd e)) (InputSet (WorkingSet svCtx)))"
    using deposit_inputs_sum by fastforce
next
  assume "(oid', input) \<in> set (InputSet (WorkingSet svCtx)) \<and> carries_timelocked svCtx input"
  then have "list_ex (\<lambda>e. carries_timelocked svCtx (snd e)) (InputSet (WorkingSet svCtx))"
    by (force simp: list_ex_iff)
  then show "TxSemanticTimelock svCtx = Some ErrInvalidInputUnlock"
    by (simp add: TxSemanticTimelock_def timelock_inputs_iff)
next
  show "TxSemanticDeposit (with_TxInputs svCtx ins) = TxSemanticDeposit svCtx"
    by (rule TxSemanticDeposit_with_TxInputs)
next
  show "TxSemanticTimelock (with_TxInputs svCtx ins) = TxSemanticTimelock svCtx"
    by (rule TxSemanticTimelock_with_TxInputs)
next
  assume a: "TxSemanticDeposit svCtx = None \<and> InputSet (WorkingSet svCtx) = pre @ post \<and>
        oid \<notin> fst ` set (pre @ post) \<and>
        (\<forall>essence. Essence (Tx (WorkingSet svCtx)) = Some essence \<longrightarrow> oid \<notin> Ref ` set (Inputs essence)) \<and>
        Deposit extra \<noteq> 0 \<and> wf_blocks extra"
  then show "TxSemanticDeposit (with_InputSet svCtx (pre @ (oid, extra) # post))
          = Some ErrInputOutputSumMismatch"
    by (intro TxSemanticDeposit_extra_entry) simp_all
qed

text \<open>
  Scenario 1 of the spec passes the Deposit-balance step; with one more, unreferenced,
  entry of 1 token in the input set it fails with \<open>ErrInputOutputSumMismatch\<close>.
\<close>

theorem C9_witness:
  "TxSemanticDeposit minimal_scenario = None
   \<and> TxSemanticDeposit
        (with_InputSet minimal_scenario
           [((txidA, 0), simple_out addrA 1000000), ((txidA, 1), simple_out addrA 1)])
       = Some ErrInputOutputSumMismatch"
proof -
  have p: "TxSemanticDeposit minimal_scenario = None"
    by (simp add: minimal_scenario_def example_svCtx_def example_workingSet_def transfer_tx_def
        simple_out_def TxSemanticDeposit_def addrA_def addrB_def)
  have r: "InputSet (WorkingSet minimal_scenario) = [((txidA, 0), simple_out addrA 1000000)] @ [] \<and>
      (txidA, 1 :: u16) \<notin> fst ` set ([((txidA, 0 :: u16), simple_out addrA 1000000)] @ []) \<and>
      (\<forall>essence. Essence (Tx (WorkingSet minimal_scenario)) = Some essence \<longrightarrow>
          (txidA, 1 :: u16) \<notin> Ref ` set (Inputs essence)) \<and>
      Deposit (simple_out addrA 1) \<noteq> 0 \<and> wf_blocks (simple_out addrA 1)"
    by (auto simp: minimal_scenario_def example_svCtx_def example_workingSet_def transfer_tx_def
        simple_out_def wf_blocks_def)
  from C9_steps_range_over_whole_input_set
    [where svCtx = minimal_scenario and pre = "[((txidA, 0), simple_out addrA 1000000)]"
       and post = "[]" and oid = "(txidA, 1)" and extra = "simple_out addrA 1"] r p
  show ?thesis by simp
qed

section \<open>Properties of unlock resolution\<close>

lemma find_Type_member:
  "distinct (map FeatureBlock_Type bs) \<Longrightarrow> b \<in> set bs \<Longrightarrow>
     find (\<lambda>x. FeatureBlock_Type x = FeatureBlock_Type b) bs = Some b"
proof (induction bs)
  case Nil
  then show ?case by simp
next
  case (Cons a bs)
  show ?case
  proof (cases "a = b")
    case True
    then show ?thesis by simp
  next
    case False
    with Cons.prems have m: "b \<in> set bs" by simp
    then have "FeatureBlock_Type b \<in> FeatureBlock_Type ` set bs" by (rule imageI)
    with Cons.prems have "FeatureBlock_Type a \<noteq> FeatureBlock_Type b" by auto
    moreover from Cons.IH Cons.prems m
    have "find (\<lambda>x. FeatureBlock_Type x = FeatureBlock_Type b) bs = Some b" by simp
    ultimately show ?thesis by simp
  qed
qed

lemma find_Type_None:
  "find (\<lambda>x. FeatureBlock_Type x = ty) bs = None \<longleftrightarrow> (\<forall>b \<in> set bs. FeatureBlock_Type b \<noteq> ty)"
  by (auto simp: find_None_iff)

text \<open>
  C5. For an Alias output consumed as input, the alias id is the output's own
  \<open>AliasID\<close>, or, when that is zeroed, the id derived from the output id that the input
  references; the identity to unlock is the governance controller exactly when the
  output side has no chain under that alias id or has an alias output with the same
  state index, and the state controller otherwise. (The input index is within the
  transaction's inputs when the id has to be derived, and the output-side chain set
  holds alias outputs under alias ids.)
\<close>

theorem C5_alias_ident_to_unlock:
  assumes "AliasID_Empty (alias_AliasID a) \<longrightarrow>
             Essence (Tx (WorkingSet svCtx)) = Some essence \<and> inputIndex < length (Inputs essence)"
    and "aliasID = (if AliasID_Empty (alias_AliasID a)
                    then AliasIDFromOutputID caps (Ref (Inputs essence ! inputIndex))
                    else alias_AliasID a)"
    and "\<forall>out. OutChains (WorkingSet svCtx) (AliasID aliasID) = Some out \<longrightarrow> (\<exists>b. out = Alias b)"
  shows "identToUnlock caps svCtx (Alias a) inputIndex =
           Inr (if OutChains (WorkingSet svCtx) (AliasID aliasID) = None \<or>
                   (\<exists>b. OutChains (WorkingSet svCtx) (AliasID aliasID) = Some (Alias b) \<and>
                        alias_StateIndex b = alias_StateIndex a)
                then alias_GovernanceController a
                else alias_StateController a)"
proof -
  have id: "inputAliasID caps svCtx a inputIndex = Inr aliasID"
    using assms(1,2) by (auto simp: inputAliasID_def)
  show ?thesis
  proof (cases "OutChains (WorkingSet svCtx) (AliasID aliasID)")
    case None
    then show ?thesis by (simp add: identToUnlockFromMultiIdentOutput_def id)
  next
    case (Some out)
    with assms(3) obtain b where "out = Alias b" by auto
    with Some show ?thesis
      by (auto simp: identToUnlockFromMultiIdentOutput_def id)
  qed
qed

lemma Set_lookup:
  "distinct (map FeatureBlock_Type blocks) \<Longrightarrow>
     FeatureBlocks_Set blocks = Inr (\<lambda>ty. find (\<lambda>b. FeatureBlock_Type b = ty) blocks)"
  by (simp add: Set_char)

lemma checkSender_char:
  assumes fb: "FeatureBlocks_of consumed = Some blocks"
    and d: "distinct (map FeatureBlock_Type blocks)"
    and s: "SenderFeatureBlock sender \<in> set blocks"
    and e: "(\<exists>idx. ExpirationMilestoneIndexFeatureBlock idx \<in> set blocks) \<or>
            (\<exists>ts. ExpirationUnixFeatureBlock ts \<in> set blocks)"
  shows "checkSenderFeatureBlockIdentUnlock svCtx consumed =
           Inr (if (\<forall>idx. ExpirationMilestoneIndexFeatureBlock idx \<in> set blocks \<longrightarrow>
                        idx \<le> ConfirmingMilestoneIndex svCtx) \<and>
                   (\<forall>ts. ExpirationUnixFeatureBlock ts \<in> set blocks \<longrightarrow>
                        ts \<le> ConfirmingMilestoneUnix svCtx)
                then Some sender else None)"
proof -
  let ?f = "\<lambda>ty. find (\<lambda>b. FeatureBlock_Type b = ty) blocks"
  have snd: "?f FeatureBlockSender = Some (SenderFeatureBlock sender)"
    using find_Type_member [OF d s] by simp
  have ms_in: "\<And>idx. ExpirationMilestoneIndexFeatureBlock idx \<in> set blocks \<Longrightarrow>
      ?f FeatureBlockExpirationMilestoneIndex = Some (ExpirationMilestoneIndexFeatureBlock idx)"
    using find_Type_member [OF d] by fastforce
  have ux_in: "\<And>ts. ExpirationUnixFeatureBlock ts \<in> set blocks \<Longrightarrow>
      ?f FeatureBlockExpirationUnix = Some (ExpirationUnixFeatureBlock ts)"
    using find_Type_member [OF d] by fastforce
  have ms_none: "?f FeatureBlockExpirationMilestoneIndex = None \<Longrightarrow>
      (\<forall>idx. ExpirationMilestoneIndexFeatureBlock idx \<notin> set blocks)"
    by (fastforce simp: find_Type_None)
  have ux_none: "?f FeatureBlockExpirationUnix = None \<Longrightarrow>
      (\<forall>ts. ExpirationUnixFeatureBlock ts \<notin> set blocks)"
    by (fastforce simp: find_Type_None)
  have ms_cases: "?f FeatureBlockExpirationMilestoneIndex = None \<or>
      (\<exists>idx. ?f FeatureBlockExpirationMilestoneIndex = Some (ExpirationMilestoneIndexFeatureBlock idx))"
  proof (cases "?f FeatureBlockExpirationMilestoneIndex")
    case None then show ?thesis by simp
  next
    case (Some b)
    then have "FeatureBlock_Type b = FeatureBlockExpirationMilestoneIndex"
      by (auto simp: find_Some_iff)
    with Some show ?thesis by (cases b) auto
  qed
  have ux_cases: "?f FeatureBlockExpirationUnix = None \<or>
      (\<exists>ts. ?f FeatureBlockExpirationUnix = Some (ExpirationUnixFeatureBlock ts))"
  proof (cases "?f FeatureBlockExpirationUnix")
    case None then show ?thesis by simp
  next
    case (Some b)
    then have "FeatureBlock_Type b = FeatureBlockExpirationUnix"
      by (auto simp: find_Some_iff)
    with Some show ?thesis by (cases b) auto
  qed
  have unfold: "checkSenderFeatureBlockIdentUnlock svCtx consumed =
      (case (?f FeatureBlockExpirationMilestoneIndex, ?f FeatureBlockExpirationUnix) of
         (None, None) \<Rightarrow> Inr None
       | (Some (ExpirationMilestoneIndexFeatureBlock idx), Some (ExpirationUnixFeatureBlock ts)) \<Rightarrow>
           (if idx \<le> ConfirmingMilestoneIndex svCtx \<and> ts \<le> ConfirmingMilestoneUnix svCtx
            then Inr (Some sender) else Inr None)
       | (Some (ExpirationMilestoneIndexFeatureBlock idx), None) \<Rightarrow>
           (if idx \<le> ConfirmingMilestoneIndex svCtx then Inr (Some sender) else Inr None)
       | (None, Some (ExpirationUnixFeatureBlock ts)) \<Rightarrow>
           (if ts \<le> ConfirmingMilestoneUnix svCtx then Inr (Some sender) else Inr None)
       | _ \<Rightarrow> Inl Panic)"
    using ms_cases ux_cases
    by (auto simp: checkSenderFeatureBlockIdentUnlock_def fb Set_lookup [OF d] snd)
  from ms_cases ux_cases show ?thesis
  proof (elim disjE exE)
    assume a: "?f FeatureBlockExpirationMilestoneIndex = None" "?f FeatureBlockExpirationUnix = None"
    with e ms_none ux_none show ?thesis by blast
  next
    fix ts
    assume a: "?f FeatureBlockExpirationMilestoneIndex = None"
      "?f FeatureBlockExpirationUnix = Some (ExpirationUnixFeatureBlock ts)"
    have "\<And>ts'. ExpirationUnixFeatureBlock ts' \<in> set blocks \<longleftrightarrow> ts' = ts"
      using ux_in a(2) by (auto simp: find_Some_iff)
    with a ms_none show ?thesis by (simp add: unfold)
  next
    fix idx
    assume a: "?f FeatureBlockExpirationMilestoneIndex = Some (ExpirationMilestoneIndexFeatureBlock idx)"
      "?f FeatureBlockExpirationUnix = None"
    have "\<And>idx'. ExpirationMilestoneIndexFeatureBlock idx' \<in> set blocks \<longleftrightarrow> idx' = idx"
      using ms_in a(1) by (auto simp: find_Some_iff)
    with a ux_none show ?thesis by (simp add: unfold)
  next
    fix idx ts
    assume a: "?f FeatureBlockExpirationMilestoneIndex = Some (ExpirationMilestoneIndexFeatureBlock idx)"
      "?f FeatureBlockExpirationUnix = Some (ExpirationUnixFeatureBlock ts)"
    have "\<And>idx'. ExpirationMilestoneIndexFeatureBlock idx' \<in> set blocks \<longleftrightarrow> idx' = idx"
      using ms_in a(1) by (auto simp: find_Some_iff)
    moreover have "\<And>ts'. ExpirationUnixFeatureBlock ts' \<in> set blocks \<longleftrightarrow> ts' = ts"
      using ux_in a(2) by (auto simp: find_Some_iff)
    ultimately show ?thesis using a by (simp add: unfold)
  qed
qed

text \<open>
  C6. For a consumed output that carries a \<open>SenderFeatureBlock\<close> and at least one
  expiration feature block (with feature blocks of unique kinds), the target identity is
  the sender's address exactly when every expiration present is past (a milestone-index
  expiration \<open>idx\<close> needs \<open>idx \<le> ConfirmingMilestoneIndex\<close>, a unix expiration \<open>ts\<close> needs
  \<open>ts \<le> ConfirmingMilestoneUnix\<close>, both when both are present); otherwise it is the
  identity \<open>identToUnlock\<close> gives, unchanged.
\<close>

theorem C6_expired_sender_overrides_target:
  assumes "FeatureBlocks_of consumed = Some blocks"
    and "distinct (map FeatureBlock_Type blocks)"
    and "SenderFeatureBlock sender \<in> set blocks"
    and "(\<exists>idx. ExpirationMilestoneIndexFeatureBlock idx \<in> set blocks) \<or>
         (\<exists>ts. ExpirationUnixFeatureBlock ts \<in> set blocks)"
    and "identToUnlock caps svCtx consumed inputIndex = Inr targetIdent"
  shows "targetIdentToUnlock caps svCtx consumed inputIndex =
           Inr (if (\<forall>idx. ExpirationMilestoneIndexFeatureBlock idx \<in> set blocks \<longrightarrow>
                        idx \<le> ConfirmingMilestoneIndex svCtx) \<and>
                   (\<forall>ts. ExpirationUnixFeatureBlock ts \<in> set blocks \<longrightarrow>
                        ts \<le> ConfirmingMilestoneUnix svCtx)
                then sender else targetIdent)"
  unfolding targetIdentToUnlock_def assms(5) checkSender_char [OF assms(1-4)]
  by auto

text \<open>
  C7. When the target identity of an input is a direct-unlockable address and the
  unlock block paired with the input is a signature unlock: the unlock fails with
  \<open>ErrInvalidInputUnlock\<close> if the identity's key is already in \<open>UnlockedIdents\<close>;
  otherwise the identity's \<open>Unlock\<close> capability is called on the essence signing message
  and the unlock's signature, its error is returned if it fails, and on success the
  identity's key is put into \<open>UnlockedIdents\<close>, mapped to the input index.
\<close>

theorem C7_signature_unlock_of_direct_address:
  assumes "targetIdentToUnlock caps svCtx consumed inputIndex = Inr ident"
    and "\<not> isChainConstrainedAddress ident"
    and "inputIndex < length (UnlockBlocks (Tx (WorkingSet svCtx)))"
    and "UnlockBlocks (Tx (WorkingSet svCtx)) ! inputIndex = SignatureUnlockBlock signature"
  shows "unlockOutput caps svCtx consumed inputIndex =
           (case UnlockedIdents (WorkingSet svCtx) (Address_Key ident) of
              Some unlockedAtIndex \<Rightarrow> Inl ErrInvalidInputUnlock
            | None \<Rightarrow>
                (case cap_Unlock caps ident (EssenceMsgToSign (WorkingSet svCtx)) signature of
                   Some err \<Rightarrow> Inl err
                 | None \<Rightarrow>
                     Inr (svCtx\<lparr>WorkingSet := (WorkingSet svCtx)
                            \<lparr>UnlockedIdents :=
                               (UnlockedIdents (WorkingSet svCtx))
                                 (Address_Key ident \<mapsto> of_nat inputIndex)\<rparr>\<rparr>)))"
  using assms by (simp add: unlockOutput_def setUnlocked_def split: option.splits)


text \<open>
  A state transition (state index 5 to 6) asks for the state controller \<open>addrA\<close>; a
  governance transition (same state index) and a destruction (no chain) ask for the
  governance controller \<open>addrB\<close>; a zeroed alias id is looked up under the derived id.
\<close>

theorem C5_witness:
  "identToUnlock example_caps
     (with_OutChains minimal_scenario [AliasID aliasX \<mapsto> Alias (alias_out aliasX 6)])
     (Alias (alias_out aliasX 5)) 0 = Inr addrA
   \<and> identToUnlock example_caps
     (with_OutChains minimal_scenario [AliasID aliasX \<mapsto> Alias (alias_out aliasX 5)])
     (Alias (alias_out aliasX 5)) 0 = Inr addrB
   \<and> identToUnlock example_caps minimal_scenario (Alias (alias_out aliasX 5)) 0 = Inr addrB
   \<and> identToUnlock example_caps
     (with_OutChains minimal_scenario [AliasID (replicate 20 7) \<mapsto> Alias (alias_out (replicate 20 7) 1)])
     (Alias (alias_out (replicate 20 0) 0)) 0 = Inr addrA"
proof -
  have ne: "\<not> AliasID_Empty aliasX"
    by (simp add: AliasID_Empty_def aliasX_def list_all_iff)
  have em: "AliasID_Empty (replicate 20 0)"
    by (simp add: AliasID_Empty_def list_all_iff)
  have ess: "Essence (Tx (WorkingSet (with_OutChains minimal_scenario ch))) =
      Some \<lparr>Inputs = [UTXOInput txidA 0], Outputs = [simple_out addrB 1000000], Payload = None\<rparr>"
    for ch
    by (simp add: with_OutChains_def minimal_scenario_def example_svCtx_def
        example_workingSet_def transfer_tx_def)
  have derived: "AliasIDFromOutputID example_caps (Ref (UTXOInput txidA 0)) = replicate 20 7"
    by (simp add: AliasIDFromOutputID_def example_caps_def OutputID_bytes_def txidA_def)
  have 1: "identToUnlock example_caps
     (with_OutChains minimal_scenario [AliasID aliasX \<mapsto> Alias (alias_out aliasX 6)])
     (Alias (alias_out aliasX 5)) 0 = Inr addrA"
    using C5_alias_ident_to_unlock [where a = "alias_out aliasX 5" and aliasID = aliasX
        and svCtx = "with_OutChains minimal_scenario [AliasID aliasX \<mapsto> Alias (alias_out aliasX 6)]"
        and caps = example_caps and inputIndex = 0] ne
    by (simp add: alias_out_def with_OutChains_def)
  have 2: "identToUnlock example_caps
     (with_OutChains minimal_scenario [AliasID aliasX \<mapsto> Alias (alias_out aliasX 5)])
     (Alias (alias_out aliasX 5)) 0 = Inr addrB"
    using C5_alias_ident_to_unlock [where a = "alias_out aliasX 5" and aliasID = aliasX
        and svCtx = "with_OutChains minimal_scenario [AliasID aliasX \<mapsto> Alias (alias_out aliasX 5)]"
        and caps = example_caps and inputIndex = 0] ne
    by (simp add: alias_out_def with_OutChains_def)
  have 3: "identToUnlock example_caps minimal_scenario (Alias (alias_out aliasX 5)) 0 = Inr addrB"
    using C5_alias_ident_to_unlock [where a = "alias_out aliasX 5" and aliasID = aliasX
        and svCtx = minimal_scenario and caps = example_caps and inputIndex = 0] ne
    by (simp add: alias_out_def minimal_scenario_def example_svCtx_def example_workingSet_def)
  have 4: "identToUnlock example_caps
     (with_OutChains minimal_scenario [AliasID (replicate 20 7) \<mapsto> Alias (alias_out (replicate 20 7) 1)])
     (Alias (alias_out (replicate 20 0) 0)) 0 = Inr addrA"
    using C5_alias_ident_to_unlock [where a = "alias_out (replicate 20 0) 0"
        and aliasID = "replicate 20 7"
        and svCtx = "with_OutChains minimal_scenario
            [AliasID (replicate 20 7) \<mapsto> Alias (alias_out (replicate 20 7) 1)]"
        and caps = example_caps and inputIndex = 0
        and essence = "\<lparr>Inputs = [UTXOInput txidA 0], Outputs = [simple_out addrB 1000000], Payload = None\<rparr>"]
      em ess derived
    by (simp add: alias_out_def with_OutChains_def)
  from 1 2 3 4 show ?thesis by simp
qed

text \<open>
  With both expirations (index 5, time 100): at (5, 100) the sender \<open>addrA\<close> unlocks, at
  (5, 99) the owner \<open>addrB\<close>. With the unix expiration only: at time 100 the sender, at
  99 the owner.
\<close>

theorem C6_witness:
  "targetIdentToUnlock example_caps (example_svCtx 5 100 (transfer_tx [] [] []) []) expiring_both 0 = Inr addrA
   \<and> targetIdentToUnlock example_caps (example_svCtx 5 99 (transfer_tx [] [] []) []) expiring_both 0 = Inr addrB
   \<and> targetIdentToUnlock example_caps (example_svCtx 0 100 (transfer_tx [] [] []) []) expiring_unix 0 = Inr addrA
   \<and> targetIdentToUnlock example_caps (example_svCtx 0 99 (transfer_tx [] [] []) []) expiring_unix 0 = Inr addrB"
  using
    C6_expired_sender_overrides_target [where consumed = expiring_both and sender = addrA
      and blocks = "[SenderFeatureBlock addrA, ExpirationMilestoneIndexFeatureBlock 5,
        ExpirationUnixFeatureBlock 100]"
      and caps = example_caps and svCtx = "example_svCtx 5 100 (transfer_tx [] [] []) []" and inputIndex = 0
      and targetIdent = addrB]
    C6_expired_sender_overrides_target [where consumed = expiring_both and sender = addrA
      and blocks = "[SenderFeatureBlock addrA, ExpirationMilestoneIndexFeatureBlock 5,
        ExpirationUnixFeatureBlock 100]"
      and caps = example_caps and svCtx = "example_svCtx 5 99 (transfer_tx [] [] []) []" and inputIndex = 0
      and targetIdent = addrB]
    C6_expired_sender_overrides_target [where consumed = expiring_unix and sender = addrA
      and blocks = "[SenderFeatureBlock addrA, ExpirationUnixFeatureBlock 100]"
      and caps = example_caps and svCtx = "example_svCtx 0 100 (transfer_tx [] [] []) []" and inputIndex = 0
      and targetIdent = addrB]
    C6_expired_sender_overrides_target [where consumed = expiring_unix and sender = addrA
      and blocks = "[SenderFeatureBlock addrA, ExpirationUnixFeatureBlock 100]"
      and caps = example_caps and svCtx = "example_svCtx 0 99 (transfer_tx [] [] []) []" and inputIndex = 0
      and targetIdent = addrB]
  by (simp add: expiring_both_def expiring_unix_def extended_out_def example_svCtx_def)

text \<open>
  Scenario 1 of the spec: the signature unlock of input 0 puts \<open>addrA\<close> into
  \<open>UnlockedIdents\<close> at index 0; a second signature unlock of the same identity fails.
\<close>

theorem C7_witness:
  "unlockOutput example_caps minimal_scenario (simple_out addrA 1000000) 0
     = Inr (setUnlocked minimal_scenario (Address_Key addrA) 0)
   \<and> unlockOutput example_caps (setUnlocked minimal_scenario (Address_Key addrA) 0)
        (simple_out addrA 1000000) 0
     = Inl ErrInvalidInputUnlock"
proof -
  have t: "targetIdentToUnlock example_caps svCtx (simple_out addrA 1000000) 0 = Inr addrA" for svCtx
    by (simp add: targetIdentToUnlock_def simple_out_def checkSenderFeatureBlockIdentUnlock_def)
  have d: "\<not> isChainConstrainedAddress addrA" by (simp add: addrA_def)
  have u: "cap_Unlock example_caps addrA msg (Ed25519Signature (replicate 32 1) (replicate 64 9)) = None" for msg
    by (simp add: example_caps_def addrA_def)
  have 1: "unlockOutput example_caps minimal_scenario (simple_out addrA 1000000) 0
     = Inr (setUnlocked minimal_scenario (Address_Key addrA) 0)"
    using C7_signature_unlock_of_direct_address [where caps = example_caps
        and svCtx = minimal_scenario and consumed = "simple_out addrA 1000000" and inputIndex = 0
        and ident = addrA and signature = "Ed25519Signature (replicate 32 1) (replicate 64 9)"] t d u
    by (simp add: minimal_scenario_def example_svCtx_def example_workingSet_def transfer_tx_def
        sigA_def setUnlocked_def)
  have 2: "unlockOutput example_caps (setUnlocked minimal_scenario (Address_Key addrA) 0)
        (simple_out addrA 1000000) 0 = Inl ErrInvalidInputUnlock"
    using C7_signature_unlock_of_direct_address [where caps = example_caps
        and svCtx = "setUnlocked minimal_scenario (Address_Key addrA) 0"
        and consumed = "simple_out addrA 1000000" and inputIndex = 0
        and ident = addrA and signature = "Ed25519Signature (replicate 32 1) (replicate 64 9)"] t d
    by (simp add: minimal_scenario_def example_svCtx_def example_workingSet_def transfer_tx_def
        sigA_def setUnlocked_def)
  from 1 2 show ?thesis by simp
qed

section \<open>Properties of the native-token step\<close>

lemma Balanced_refl: "distinct (map fst nts) \<Longrightarrow> Balanced nts nts = None"
  by (auto simp: Balanced_def list_all_iff)

lemma sum_token_keys:
  "sum_token acc k v = Inr acc' \<Longrightarrow> fst ` set acc' = insert k (fst ` set acc)"
proof (induction acc k v arbitrary: acc' rule: sum_token.induct)
  case (1 tokenID amount)
  then show ?case by auto
next
  case (2 tokenID' val rest tokenID amount)
  show ?case
  proof (cases "tokenID' = tokenID")
    case True
    with "2.prems" show ?thesis by (auto split: if_splits)
  next
    case False
    with "2.prems" obtain rest' where r: "sum_token rest tokenID amount = Inr rest'"
      and a: "acc' = (tokenID', val) # rest'"
      by (auto split: sum.splits)
    from "2.IH" [OF False r] have "fst ` set rest' = insert tokenID (fst ` set rest)" .
    then show ?thesis by (simp add: a insert_commute)
  qed
qed

lemma sum_token_distinct:
  "sum_token acc k v = Inr acc' \<Longrightarrow> distinct (map fst acc) \<Longrightarrow> distinct (map fst acc')"
proof (induction acc k v arbitrary: acc' rule: sum_token.induct)
  case (1 tokenID amount)
  then show ?case by auto
next
  case (2 tokenID' val rest tokenID amount)
  show ?case
  proof (cases "tokenID' = tokenID")
    case True
    with "2.prems" show ?thesis by (auto split: if_splits)
  next
    case False
    with "2.prems" obtain rest' where r: "sum_token rest tokenID amount = Inr rest'"
      and a: "acc' = (tokenID', val) # rest'"
      by (auto split: sum.splits)
    from "2.IH" [OF False r] "2.prems" have "distinct (map fst rest')" by simp
    moreover from sum_token_keys [OF r] "2.prems" False have "tokenID' \<notin> fst ` set rest'"
      by auto
    ultimately show ?thesis by (simp add: a)
  qed
qed

lemma sum_tokens_distinct:
  "sum_tokens acc nts = Inr acc' \<Longrightarrow> distinct (map fst acc) \<Longrightarrow> distinct (map fst acc')"
  by (induction acc nts arbitrary: acc' rule: sum_tokens.induct)
     (auto split: sum.splits dest: sum_token_distinct)

lemma sum_outputs_distinct:
  "sum_outputs acc outs = Inr acc' \<Longrightarrow> distinct (map fst acc) \<Longrightarrow> distinct (map fst acc')"
  by (induction acc outs arbitrary: acc' rule: sum_outputs.induct)
     (auto split: sum.splits dest: sum_tokens_distinct)

text \<open>
  With no foundry on either side, the step succeeds whenever the input-side sum does,
  whatever the outputs hold: the sum it stores as the output side is the input side's.
\<close>

lemma TxSemanticNativeTokens_no_foundry:
  assumes "OutputsByType (WorkingSet svCtx) OutputFoundry = []"
    and "InputsByType (WorkingSet svCtx) OutputFoundry = []"
  shows "TxSemanticNativeTokens svCtx =
     (case NativeTokenOutputs_Sum (NativeTokenOutputs (InputsByType (WorkingSet svCtx))) of
        Inl err \<Rightarrow> Inl err
      | Inr inNativeTokens \<Rightarrow>
          Inr (svCtx\<lparr>WorkingSet := (WorkingSet svCtx)
                 \<lparr>InNativeTokens := inNativeTokens, OutNativeTokens := inNativeTokens\<rparr>\<rparr>))"
proof (cases "NativeTokenOutputs_Sum (NativeTokenOutputs (InputsByType (WorkingSet svCtx)))")
  case (Inl err)
  then show ?thesis by (simp add: TxSemanticNativeTokens_def)
next
  case (Inr s)
  then have "distinct (map fst s)"
    unfolding NativeTokenOutputs_Sum_def by (rule sum_outputs_distinct) simp
  then have "Balanced s s = None" by (rule Balanced_refl)
  with Inr assms show ?thesis by (simp add: TxSemanticNativeTokens_def)
qed

text \<open>
  C1, on the code. The claim asks for the output-side sum to be taken over the
  transaction's outputs, and for a transaction without foundries whose output-side
  native tokens differ from the input side to fail with \<open>ErrNativeTokenSumUnbalanced\<close>.
  In the scenario the input side sums to nothing, the outputs hold 5 tokens of \<open>tokenT\<close>,
  no foundry is present, and yet the step succeeds, storing the empty input-side sum as
  \<open>OutNativeTokens\<close>.
\<close>

theorem C1_native_tokens_output_side_not_summed:
  "NativeTokenOutputs_Sum (NativeTokenOutputs (InputsByType (WorkingSet minting_scenario))) = Inr []
   \<and> NativeTokenOutputs_Sum (NativeTokenOutputs (OutputsByType (WorkingSet minting_scenario)))
       = Inr [(tokenT, 5)]
   \<and> OutputsByType (WorkingSet minting_scenario) OutputFoundry = []
   \<and> InputsByType (WorkingSet minting_scenario) OutputFoundry = []
   \<and> TxSemanticNativeTokens minting_scenario =
       Inr (minting_scenario\<lparr>WorkingSet := (WorkingSet minting_scenario)
              \<lparr>InNativeTokens := [], OutNativeTokens := []\<rparr>\<rparr>)"
  by (simp add: minting_scenario_def example_svCtx_def example_workingSet_def transfer_tx_def
      token_out_def TxSemanticNativeTokens_def NativeTokenOutputs_Sum_def NativeTokenOutputs_def
      ToOutputsByType_def Balanced_def)

section \<open>Properties of the transaction id\<close>

lemma HasMode_NoValidation [simp]: "\<not> HasMode DeSeriModeNoValidation mode"
  by (simp add: HasMode_def DeSeriModeNoValidation_def)

lemma write_objects_total:
  "\<forall>x \<in> set xs. \<exists>d. enc x = Inr d \<Longrightarrow> \<exists>w. write_objects enc False seen xs = Inr w"
proof (induction xs arbitrary: seen)
  case Nil
  then show ?case by simp
next
  case (Cons x xs)
  then obtain d where d: "enc x = Inr d" by auto
  from Cons obtain w where "write_objects enc False (d # seen) xs = Inr w" by fastforce
  with d show ?case by simp
qed

lemma WriteSliceOfObjects_total:
  assumes "\<forall>x \<in> set xs. \<exists>d. enc x = Inr d" and "length xs \<le> 65535"
  shows "\<exists>w. WriteSliceOfObjects enc False xs = Inr w"
proof -
  from write_objects_total [OF assms(1)] obtain w where "write_objects enc False [] xs = Inr w"
    by blast
  with assms(2) show ?thesis
    by (simp add: WriteSliceOfObjects_def writeSliceLength_def)
qed







section \<open>Properties of syntactic validation and of the array rules\<close>

lemma first_error_None_iff: "first_error es = None \<longleftrightarrow> (\<forall>e \<in> set es. e = None)"
  by (induction es rule: first_error.induct) auto

lemma Validate_None_iff:
  "Validate preds xs = None \<longleftrightarrow> (\<forall>i < length xs. \<forall>p \<in> set preds. p i xs = None)"
  by (auto simp: Validate_def first_error_None_iff)

lemma read_objects_length:
  "read_objects rd n data = Inr (objs, rest) \<Longrightarrow> length objs = n"
proof (induction n arbitrary: data objs rest)
  case 0
  then show ?case by simp
next
  case (Suc n)
  then show ?case
    by (auto split: sum.splits prod.splits)
qed

lemma ReadSliceOfObjects_bounds:
  assumes "HasMode deSeriMode DeSeriModePerformValidation"
    and "ReadSliceOfObjects dec guard deSeriMode rules data = Inr (xs, rest)"
  shows "ar_Min rules \<le> length xs \<and> length xs \<le> ar_Max rules"
proof -
  from assms(2) obtain n afterLength objs where
    n: "readSliceLength data = Inr (n, afterLength)"
    and b: "(if HasMode deSeriMode DeSeriModePerformValidation then CheckBounds rules n else None) = None"
    and r: "read_objects (readObject guard dec) n afterLength = Inr (objs, rest)"
    and x: "xs = map fst objs"
    by (auto simp: ReadSliceOfObjects_def split: sum.splits prod.splits option.splits if_splits)
  from r have "length objs = n" by (rule read_objects_length)
  with x have "length xs = n" by simp
  moreover from b assms(1) have "CheckBounds rules n = None" by simp
  ultimately show ?thesis
    by (auto simp: CheckBounds_def split: if_splits)
qed

lemma TransactionEssence_Deserialize_counts:
  assumes v: "HasMode deSeriMode DeSeriModePerformValidation"
    and d: "TransactionEssence_Deserialize decs tags deSeriMode data = Inr (essence, rest)"
  shows "1 \<le> length (Inputs essence) \<and> length (Inputs essence) \<le> 127 \<and>
         1 \<le> length (Outputs essence) \<and> length (Outputs essence) \<le> 127"
proof -
  from d obtain afterType ins afterInputs outs afterOutputs where
    i: "ReadSliceOfObjects (dec_Input decs deSeriMode)
          (\<lambda>ty. if ty = tag_InputUTXO tags then None else Some ErrUnsupportedObjectType)
          deSeriMode inputsArrayBound afterType = Inr (ins, afterInputs)"
    and o: "ReadSliceOfObjects (dec_Output decs deSeriMode)
          (\<lambda>ty. if outputTypeSupportedByTxEssence tags ty then None
                else Some ErrUnsupportedObjectType)
          deSeriMode outputsArrayBound afterInputs = Inr (outs, afterOutputs)"
    and e: "Inputs essence = ins" "Outputs essence = outs"
    unfolding TransactionEssence_Deserialize_def
    by (auto split: if_splits list.splits sum.splits prod.splits option.splits)
  from ReadSliceOfObjects_bounds [OF v i] ReadSliceOfObjects_bounds [OF v o] e
  show ?thesis
    by (simp add: inputsArrayBound_def outputsArrayBound_def MinInputsCount_def
        MaxInputsCount_def MinOutputsCount_def MaxOutputsCount_def)
qed

lemma Transaction_Deserialize_counts:
  assumes v: "HasMode deSeriMode DeSeriModePerformValidation"
    and d: "Transaction_Deserialize params caps decs tags deSeriMode deSeriCtx data = Inr (t, n)"
  shows "\<exists>essence. Essence t = Some essence \<and>
           1 \<le> length (Inputs essence) \<and> length (Inputs essence) \<le> 127 \<and>
           1 \<le> length (Outputs essence) \<and> length (Outputs essence) \<le> 127 \<and>
           length (UnlockBlocks t) = length (Inputs essence)"
proof -
  from d obtain afterTag essence afterEssence unlocks afterUnlocks where
    e: "readObject TransactionEssenceSelector (TransactionEssence_Deserialize decs tags deSeriMode)
          afterTag = Inr (essence, afterEssence)"
    and u: "ReadSliceOfObjects (dec_UnlockBlock decs deSeriMode) (\<lambda>ty. None) deSeriMode
          (txUnlockBlockArrayRules\<lparr>ar_Min := length (Inputs essence),
                                   ar_Max := length (Inputs essence)\<rparr>)
          afterEssence = Inr (unlocks, afterUnlocks)"
    and t: "t = \<lparr>Essence = Some essence, UnlockBlocks = unlocks\<rparr>"
    unfolding Transaction_Deserialize_def
    by (auto simp: Let_def split: if_splits sum.splits prod.splits option.splits)
  from e have "TransactionEssence_Deserialize decs tags deSeriMode afterTag = Inr (essence, afterEssence)"
    by (auto simp: readObject_def split: list.splits option.splits)
  from TransactionEssence_Deserialize_counts [OF v this] ReadSliceOfObjects_bounds [OF v u] t
  show ?thesis by simp
qed

lemma Transaction_Serialize_unlock_count:
  assumes v: "HasMode deSeriMode DeSeriModePerformValidation"
    and e: "Essence t = Some essence"
    and n: "length (UnlockBlocks t) \<noteq> length (Inputs essence)"
  shows "\<exists>err. Transaction_Serialize params caps encs tags deSeriMode deSeriCtx t = Inl err"
proof -
  have "CheckBounds (txUnlockBlockArrayRules\<lparr>ar_Min := length (Inputs essence),
                                             ar_Max := length (Inputs essence)\<rparr>)
          (length (UnlockBlocks t)) = Some (EncodingError ArrayBoundViolation)"
    using n by (auto simp: CheckBounds_def)
  then have w: "WriteSliceOfObjectsWithRules (enc_UnlockBlock encs deSeriMode) deSeriMode
          (txUnlockBlockArrayRules\<lparr>ar_Min := length (Inputs essence),
                                   ar_Max := length (Inputs essence)\<rparr>)
          (UnlockBlocks t) = Inl (EncodingError ArrayBoundViolation)"
    by (simp add: WriteSliceOfObjectsWithRules_def v)
  show ?thesis
  proof (cases "TransactionEssence_Serialize params encs deSeriMode essence")
    case (Inl err)
    then show ?thesis by (simp add: Transaction_Serialize_def e)
  next
    case (Inr essenceBytes)
    then show ?thesis by (simp add: Transaction_Serialize_def e w)
  qed
qed

text \<open>
  C2. The syntactic validation of a transaction rejects a transaction without inputs
  (\<open>ErrMinInputsNotReached\<close>) and one without outputs (\<open>ErrMinOutputsNotReached\<close>); it
  checks neither the upper bound of 127 nor the count of the unlock blocks. Those are
  enforced by the array rules of the codec under validation: every transaction that
  \<open>Transaction.Deserialize\<close> returns with validation has between 1 and 127 inputs,
  between 1 and 127 outputs and as many unlock blocks as inputs, and
  \<open>Transaction.Serialize\<close> with validation fails on a transaction whose count of unlock
  blocks differs from its count of inputs.
\<close>

theorem C2_counts_enforced_by_validation_and_array_rules:
  "(Essence t = Some essence \<and> length (Inputs essence) = 0 \<longrightarrow>
      Transaction_syntacticallyValidate params caps t readBytes minDustDep rentStruct
        = Some ErrMinInputsNotReached)
   \<and> (Essence t = Some essence \<and> length (Inputs essence) \<noteq> 0 \<and> length (Outputs essence) = 0 \<longrightarrow>
      Transaction_syntacticallyValidate params caps t readBytes minDustDep rentStruct
        = Some ErrMinOutputsNotReached)
   \<and> (HasMode deSeriMode DeSeriModePerformValidation \<and>
       Transaction_Deserialize params caps decs tags deSeriMode deSeriCtx data = Inr (t', n) \<longrightarrow>
        (\<exists>essence'. Essence t' = Some essence' \<and>
           1 \<le> length (Inputs essence') \<and> length (Inputs essence') \<le> 127 \<and>
           1 \<le> length (Outputs essence') \<and> length (Outputs essence') \<le> 127 \<and>
           length (UnlockBlocks t') = length (Inputs essence')))
   \<and> (HasMode deSeriMode DeSeriModePerformValidation \<and> Essence t = Some essence \<and>
       length (UnlockBlocks t) \<noteq> length (Inputs essence) \<longrightarrow>
        (\<exists>err. Transaction_Serialize params caps encs tags deSeriMode deSeriCtx t = Inl err))"
proof (intro conjI impI)
  assume "Essence t = Some essence \<and> length (Inputs essence) = 0"
  then show "Transaction_syntacticallyValidate params caps t readBytes minDustDep rentStruct
      = Some ErrMinInputsNotReached"
    by (simp add: Transaction_syntacticallyValidate_def SyntacticallyValidate_def)
next
  assume "Essence t = Some essence \<and> length (Inputs essence) \<noteq> 0 \<and> length (Outputs essence) = 0"
  then show "Transaction_syntacticallyValidate params caps t readBytes minDustDep rentStruct
      = Some ErrMinOutputsNotReached"
    by (simp add: Transaction_syntacticallyValidate_def SyntacticallyValidate_def)
next
  assume "HasMode deSeriMode DeSeriModePerformValidation \<and>
       Transaction_Deserialize params caps decs tags deSeriMode deSeriCtx data = Inr (t', n)"
  then show "\<exists>essence'. Essence t' = Some essence' \<and>
           1 \<le> length (Inputs essence') \<and> length (Inputs essence') \<le> 127 \<and>
           1 \<le> length (Outputs essence') \<and> length (Outputs essence') \<le> 127 \<and>
           length (UnlockBlocks t') = length (Inputs essence')"
    using Transaction_Deserialize_counts by blast
next
  assume "HasMode deSeriMode DeSeriModePerformValidation \<and> Essence t = Some essence \<and>
       length (UnlockBlocks t) \<noteq> length (Inputs essence)"
  then show "\<exists>err. Transaction_Serialize params caps encs tags deSeriMode deSeriCtx t = Inl err"
    using Transaction_Serialize_unlock_count by blast
qed

lemma HasMode_PerformValidation [simp]:
  "HasMode DeSeriModePerformValidation DeSeriModePerformValidation"
  by (simp add: HasMode_def DeSeriModePerformValidation_def)

lemma distinct_map_nth_notin_take:
  assumes "distinct (map f xs)" and "i < length xs"
  shows "f (xs ! i) \<notin> set (map f (take i xs))"
proof
  assume "f (xs ! i) \<in> set (map f (take i xs))"
  then obtain j where j: "j < length (take i xs)" and eq: "map f (take i xs) ! j = f (xs ! i)"
    by (metis in_set_conv_nth length_map)
  from j assms(2) have ji: "j < i" by simp
  with assms(2) j eq have "map f xs ! j = map f xs ! i" by simp
  with assms ji show False
    by (simp add: distinct_conv_nth)
qed

lemma many_inputs_length: "length many_inputs = 128"
  by (simp add: many_inputs_def)

lemma unat_of_nat_u16: "n < 65536 \<Longrightarrow> unat (of_nat n :: u16) = n"
  by (simp add: unat_of_nat)

lemma txidB_neq_txidA: "txidB \<noteq> txidA"
  by (simp add: txidA_def txidB_def)

lemma many_inputs_distinct: "distinct (map Ref many_inputs)"
proof -
  have inj: "inj_on (\<lambda>i. (txidA, of_nat i :: u16)) {0..<127}"
  proof (rule inj_onI)
    fix x y :: nat
    assume x: "x \<in> {0..<127}" and y: "y \<in> {0..<127}"
      and eq: "(txidA, of_nat x :: u16) = (txidA, of_nat y)"
    from x have "x = unat (of_nat x :: u16)" by (simp add: unat_of_nat_u16)
    also from eq have "\<dots> = unat (of_nat y :: u16)" by simp
    also from y have "\<dots> = y" by (simp add: unat_of_nat_u16)
    finally show "x = y" .
  qed
  have m: "map Ref many_inputs = map (\<lambda>i. (txidA, of_nat i :: u16)) [0..<127] @ [(txidB, 0)]"
    by (simp add: many_inputs_def comp_def)
  have d: "distinct (map (\<lambda>i. (txidA, of_nat i :: u16)) [0..<127])"
    unfolding distinct_map using inj by simp
  have n: "(txidB, 0 :: u16) \<notin> set (map (\<lambda>i. (txidA, of_nat i :: u16)) [0..<127])"
    using txidB_neq_txidA by auto
  show ?thesis unfolding m using d n by simp
qed

lemma many_inputs_indices: "x \<in> set many_inputs \<Longrightarrow> unat (snd (Ref x)) \<le> 126"
proof -
  assume "x \<in> set many_inputs"
  then consider (a) i where "i < 127" "x = UTXOInput txidA (of_nat i)" | (b) "x = UTXOInput txidB 0"
    by (auto simp: many_inputs_def)
  then show ?thesis
  proof cases
    case a
    then have "unat (of_nat i :: u16) = i" by (simp add: unat_of_nat_u16)
    with a show ?thesis by simp
  next
    case b
    then show ?thesis by simp
  qed
qed

lemma many_inputs_valid:
  "Validate [InputsPredicateUnique, InputsPredicateIndicesWithinBounds] many_inputs = None"
proof -
  have "InputsPredicateUnique i many_inputs = None" if "i < length many_inputs" for i
    using distinct_map_nth_notin_take [OF many_inputs_distinct that]
    by (simp add: InputsPredicateUnique_def)
  moreover have "InputsPredicateIndicesWithinBounds i many_inputs = None"
    if "i < length many_inputs" for i
    using many_inputs_indices [of "many_inputs ! i"] that
    by (simp add: InputsPredicateIndicesWithinBounds_def MaxOutputsCount_def)
  ultimately show ?thesis by (simp add: Validate_None_iff)
qed

lemma Validate_single: "Validate preds [x] = first_error (map (\<lambda>p. p 0 [x]) preds)"
  by (simp add: Validate_def)

lemma big_tx_valid:
  "Transaction_syntacticallyValidate example_consts example_caps big_tx readBytes 0 (0, 0, 0)
   = None"
proof -
  have "SyntacticallyValidate example_consts
      \<lparr>Inputs = many_inputs, Outputs = [simple_out addrB 1000000], Payload = None\<rparr> = None"
    by (simp add: SyntacticallyValidate_def many_inputs_length many_inputs_valid Validate_single
        OutputsPredicateDepositAmount_def OutputsPredicateNativeTokensCount_def
        OutputsPredicateSenderFeatureBlockRequirement_def OutputsPredicateFoundry_def
        nativeTokensCount_def simple_out_def example_consts_def)
  then show ?thesis
    by (simp add: big_tx_def transfer_tx_def many_inputs_length
        Transaction_syntacticallyValidate_def Validate_single OutputsSyntacticalAlias_def
        OutputsSyntacticalNFT_def UnlockBlocksSigUniqueAndRefValidator_def simple_out_def sigA_def)
qed

lemma broad_outputs_valid:
  "Validate [OutputsPredicateDepositAmount example_consts,
             OutputsPredicateNativeTokensCount example_consts,
             OutputsPredicateSenderFeatureBlockRequirement,
             OutputsPredicateFoundry] (replicate 128 (simple_out addrB 1)) = None"
proof -
  have "OutputsPredicateDepositAmount example_consts i (replicate 128 (simple_out addrB 1)) = None"
    if "i < 128" for i
    using that
    by (simp add: OutputsPredicateDepositAmount_def simple_out_def example_consts_def
        sum_list_replicate min_def)
  moreover have "OutputsPredicateNativeTokensCount example_consts i
      (replicate 128 (simple_out addrB 1)) = None" for i
    by (simp add: OutputsPredicateNativeTokensCount_def nativeTokensCount_def simple_out_def
        sum_list_replicate)
  moreover have "OutputsPredicateSenderFeatureBlockRequirement i
      (replicate 128 (simple_out addrB 1)) = None" if "i < 128" for i
    using that by (simp add: OutputsPredicateSenderFeatureBlockRequirement_def simple_out_def)
  moreover have "OutputsPredicateFoundry i (replicate 128 (simple_out addrB 1)) = None"
    if "i < 128" for i
    using that by (simp add: OutputsPredicateFoundry_def simple_out_def)
  ultimately show ?thesis by (simp add: Validate_None_iff)
qed

lemma broad_essence_valid:
  "SyntacticallyValidate example_consts
     \<lparr>Inputs = [UTXOInput txidA 0], Outputs = replicate 128 (simple_out addrB 1), Payload = None\<rparr>
   = None"
  by (simp add: SyntacticallyValidate_def Validate_single InputsPredicateUnique_def
      InputsPredicateIndicesWithinBounds_def MaxOutputsCount_def broad_outputs_valid)

lemma broad_tx_valid:
  "Transaction_syntacticallyValidate example_consts example_caps broad_tx readBytes 0 (0, 0, 0)
   = None"
proof -
  have "Validate [OutputsSyntacticalAlias example_caps txID, OutputsSyntacticalNFT example_caps txID]
      (replicate 128 (simple_out addrB 1)) = None" for txID
    by (simp add: Validate_None_iff OutputsSyntacticalAlias_def OutputsSyntacticalNFT_def
        simple_out_def)
  then show ?thesis
    by (simp add: broad_tx_def transfer_tx_def Transaction_syntacticallyValidate_def
        broad_essence_valid Validate_single UnlockBlocksSigUniqueAndRefValidator_def sigA_def)
qed

lemma broad_tx_serializes:
  "\<exists>written. Transaction_Serialize example_consts example_caps example_encs example_tags
      DeSeriModePerformValidation (Some example_paras) broad_tx = Inr written"
proof -
  have "\<exists>w. WriteSliceOfObjects (enc_Output example_encs DeSeriModePerformValidation) False
      (replicate 128 (simple_out addrB 1)) = Inr w"
    by (rule WriteSliceOfObjects_total) (simp_all add: example_encs_def)
  then obtain w where w: "WriteSliceOfObjects (enc_Output example_encs DeSeriModePerformValidation)
      False (replicate 128 (simple_out addrB 1)) = Inr w" ..
  have e: "TransactionEssence_Serialize example_consts example_encs DeSeriModePerformValidation
      \<lparr>Inputs = [UTXOInput txidA 0], Outputs = replicate 128 (simple_out addrB 1), Payload = None\<rparr>
      = Inr (TransactionEssenceNormal # [1, 0, 0, 7, 0] @ w @ [0, 0, 0, 0])"
  proof -
    have h: "hd txidA = 7" by (simp add: txidA_def)
    show ?thesis
      using w
      by (simp add: TransactionEssence_Serialize_def broad_essence_valid WriteSliceOfObjects_def
          writeSliceLength_def WritePayload_def le16_def le32_def example_encs_def h
          inputsArrayBound_def)
  qed
  have u: "WriteSliceOfObjectsWithRules (enc_UnlockBlock example_encs DeSeriModePerformValidation)
      DeSeriModePerformValidation
      (txUnlockBlockArrayRules\<lparr>ar_Min := 1, ar_Max := 1\<rparr>) [sigA] = Inr [1, 0, 0, 1]"
    by (simp add: WriteSliceOfObjectsWithRules_def CheckBounds_def txUnlockBlockArrayRules_def
        WriteSliceOfObjects_def writeSliceLength_def le16_def example_encs_def)
  have v: "txDeSeriValidation example_consts example_caps broad_tx (Some example_paras) readBytes
      = None" for readBytes
    by (simp add: txDeSeriValidation_def example_paras_def broad_tx_valid)
  show ?thesis
    using e u v
    by (simp add: Transaction_Serialize_def broad_tx_def transfer_tx_def)
qed


lemma small_inputs_decode:
  "ReadSliceOfObjects (dec_Input example_decs DeSeriModePerformValidation)
     (\<lambda>ty. if ty = tag_InputUTXO example_tags then None else Some ErrUnsupportedObjectType)
     DeSeriModePerformValidation inputsArrayBound
     [1, 0, 0, 7, 0, 1, 0, 0, 5, 0, 0, 0, 0, 1, 0, 0, 1]
   = Inr ([UTXOInput txidA 0], [1, 0, 0, 5, 0, 0, 0, 0, 1, 0, 0, 1])"
  by (simp add: ReadSliceOfObjects_def CheckBounds_def inputsArrayBound_def MinInputsCount_def
      MaxInputsCount_def readObject_def example_decs_def example_tags_def txidA_def)

lemma small_outputs_decode:
  "ReadSliceOfObjects (dec_Output example_decs DeSeriModePerformValidation)
     (\<lambda>ty. if outputTypeSupportedByTxEssence example_tags ty then None
           else Some ErrUnsupportedObjectType)
     DeSeriModePerformValidation outputsArrayBound
     [1, 0, 0, 5, 0, 0, 0, 0, 1, 0, 0, 1]
   = Inr ([simple_out addrB 5], [0, 0, 0, 0, 1, 0, 0, 1])"
  by (simp add: ReadSliceOfObjects_def CheckBounds_def outputsArrayBound_def MinOutputsCount_def
      MaxOutputsCount_def readObject_def example_decs_def example_tags_def
      outputTypeSupportedByTxEssence_def)

lemma small_unlocks_decode:
  "ReadSliceOfObjects (dec_UnlockBlock example_decs DeSeriModePerformValidation) (\<lambda>ty. None)
     DeSeriModePerformValidation
     (txUnlockBlockArrayRules\<lparr>ar_Min := Suc 0, ar_Max := Suc 0\<rparr>)
     [1, 0, 0, 1]
   = Inr ([sigA], [])"
  by (simp add: ReadSliceOfObjects_def CheckBounds_def txUnlockBlockArrayRules_def
      readObject_def example_decs_def sigA_def)

lemma small_essence_decodes:
  "TransactionEssence_Deserialize example_decs example_tags DeSeriModePerformValidation
     [0, 1, 0, 0, 7, 0, 1, 0, 0, 5, 0, 0, 0, 0, 1, 0, 0, 1]
   = Inr (\<lparr>Inputs = [UTXOInput txidA 0], Outputs = [simple_out addrB 5], Payload = None\<rparr>,
          [1, 0, 0, 1])"
proof -
  have a: "Validate [OutputsPredicateAddrUnique example_decs] [simple_out addrB 5] = None"
    by (simp add: Validate_single example_decs_def)
  have p: "ReadPayload (dec_Payload example_decs DeSeriModePerformValidation) example_tags
      [0, 0, 0, 0, 1, 0, 0, 1] = Inr (None, [1, 0, 0, 1])"
    by (simp add: ReadPayload_def)
  show ?thesis
    by (simp add: TransactionEssence_Deserialize_def TransactionEssenceMinByteSize_def
        TransactionEssenceNormal_def small_inputs_decode small_outputs_decode a p)
qed

lemma signed_tx_valid:
  "Transaction_syntacticallyValidate example_consts example_caps
     \<lparr>Essence = Some \<lparr>Inputs = [UTXOInput txidA 0], Outputs = [simple_out addrB 5],
                       Payload = None\<rparr>,
      UnlockBlocks = [sigA]\<rparr> readBytes 0 (0, 0, 0) = None"
proof -
  have "SyntacticallyValidate example_consts
      \<lparr>Inputs = [UTXOInput txidA 0], Outputs = [simple_out addrB 5], Payload = None\<rparr> = None"
    by (simp add: SyntacticallyValidate_def Validate_single InputsPredicateUnique_def
        InputsPredicateIndicesWithinBounds_def MaxOutputsCount_def
        OutputsPredicateDepositAmount_def OutputsPredicateNativeTokensCount_def
        OutputsPredicateSenderFeatureBlockRequirement_def OutputsPredicateFoundry_def
        nativeTokensCount_def simple_out_def example_consts_def)
  then show ?thesis
    by (simp add: Transaction_syntacticallyValidate_def Validate_single OutputsSyntacticalAlias_def
        OutputsSyntacticalNFT_def UnlockBlocksSigUniqueAndRefValidator_def simple_out_def sigA_def)
qed

lemma small_tx_decodes:
  "Transaction_Deserialize example_consts example_caps example_decs example_tags
     DeSeriModePerformValidation (Some example_paras) small_tx_bytes
   = Inr (\<lparr>Essence = Some \<lparr>Inputs = [UTXOInput txidA 0], Outputs = [simple_out addrB 5],
                             Payload = None\<rparr>,
           UnlockBlocks = [sigA]\<rparr>, 22)"
proof -
  have r: "readU32 small_tx_bytes
      = Inr (0, [0, 1, 0, 0, 7, 0, 1, 0, 0, 5, 0, 0, 0, 0, 1, 0, 0, 1])"
    by (simp add: small_tx_bytes_def)
  have e: "readObject TransactionEssenceSelector
      (TransactionEssence_Deserialize example_decs example_tags DeSeriModePerformValidation)
      [0, 1, 0, 0, 7, 0, 1, 0, 0, 5, 0, 0, 0, 0, 1, 0, 0, 1]
      = Inr (\<lparr>Inputs = [UTXOInput txidA 0], Outputs = [simple_out addrB 5], Payload = None\<rparr>,
             [1, 0, 0, 1])"
    by (simp add: readObject_def TransactionEssenceSelector_def TransactionEssenceNormal_def
        small_essence_decodes)
  have v: "txDeSeriValidation example_consts example_caps
      \<lparr>Essence = Some \<lparr>Inputs = [UTXOInput txidA 0], Outputs = [simple_out addrB 5],
                        Payload = None\<rparr>,
       UnlockBlocks = [sigA]\<rparr> (Some example_paras) readBytes = None" for readBytes
    by (simp add: txDeSeriValidation_def example_paras_def signed_tx_valid)
  have l: "length small_tx_bytes = 22"
    by (simp add: small_tx_bytes_def)
  have t: "tag_PayloadTransaction example_tags = 0"
    by (simp add: example_tags_def)
  show ?thesis
    by (simp add: Transaction_Deserialize_def r e t small_unlocks_decode v l)
qed

text \<open>
  C2, counterexample to the claim as stated. \<open>Transaction.syntacticallyValidate\<close> accepts
  a transaction with 128 inputs and a single unlock block, whatever bytes were read; and a
  transaction with one input, 128 outputs and one unlock block is accepted by it and is
  serialized with validation, since \<open>TransactionEssence.Serialize\<close> writes its slices
  without array rules.
\<close>

theorem C2_counterexample:
  "length (Inputs (the (Essence big_tx))) = 128
   \<and> length (UnlockBlocks big_tx) = 1
   \<and> (\<forall>readBytes.
         Transaction_syntacticallyValidate example_consts example_caps big_tx readBytes 0 (0, 0, 0)
           = None)
   \<and> length (Inputs (the (Essence broad_tx))) = 1
   \<and> length (Outputs (the (Essence broad_tx))) = 128
   \<and> length (UnlockBlocks broad_tx) = 1
   \<and> (\<forall>readBytes.
         Transaction_syntacticallyValidate example_consts example_caps broad_tx readBytes 0
           (0, 0, 0) = None)
   \<and> (\<exists>written. Transaction_Serialize example_consts example_caps example_encs example_tags
         DeSeriModePerformValidation (Some example_paras) broad_tx = Inr written)"
  using big_tx_valid broad_tx_valid broad_tx_serializes
  by (simp add: big_tx_def broad_tx_def transfer_tx_def many_inputs_length)

text \<open>
  A transaction without inputs and one without outputs are rejected; the bytes of a
  transaction with one input, one output and one unlock block are decoded with validation;
  and the serialization with validation of the transaction with 128 inputs and one unlock
  block fails.
\<close>

theorem C2_witness:
  "Transaction_syntacticallyValidate example_consts example_caps
     (transfer_tx [] [simple_out addrB 5] []) [] 0 (0, 0, 0) = Some ErrMinInputsNotReached
   \<and> Transaction_syntacticallyValidate example_consts example_caps
       (transfer_tx [UTXOInput txidA 0] [] [sigA]) [] 0 (0, 0, 0) = Some ErrMinOutputsNotReached
   \<and> Transaction_Deserialize example_consts example_caps example_decs example_tags
       DeSeriModePerformValidation (Some example_paras) small_tx_bytes
       = Inr (transfer_tx [UTXOInput txidA 0] [simple_out addrB 5] [sigA], 22)
   \<and> length (UnlockBlocks big_tx) \<noteq> length (Inputs (the (Essence big_tx)))
   \<and> (\<exists>err. Transaction_Serialize example_consts example_caps example_encs example_tags
         DeSeriModePerformValidation (Some example_paras) big_tx = Inl err)"
proof -
  note c2 = C2_counts_enforced_by_validation_and_array_rules
  have a: "Transaction_syntacticallyValidate example_consts example_caps
      (transfer_tx [] [simple_out addrB 5] []) [] 0 (0, 0, 0) = Some ErrMinInputsNotReached"
    using c2 [where t = "transfer_tx [] [simple_out addrB 5] []"
        and essence = "\<lparr>Inputs = [], Outputs = [simple_out addrB 5], Payload = None\<rparr>"
        and params = example_consts and caps = example_caps and readBytes = "[]"
        and minDustDep = 0 and rentStruct = "(0, 0, 0)", THEN conjunct1]
    by (simp add: transfer_tx_def)
  have b: "Transaction_syntacticallyValidate example_consts example_caps
      (transfer_tx [UTXOInput txidA 0] [] [sigA]) [] 0 (0, 0, 0) = Some ErrMinOutputsNotReached"
    using c2 [where t = "transfer_tx [UTXOInput txidA 0] [] [sigA]"
        and essence = "\<lparr>Inputs = [UTXOInput txidA 0], Outputs = [], Payload = None\<rparr>"
        and params = example_consts and caps = example_caps and readBytes = "[]"
        and minDustDep = 0 and rentStruct = "(0, 0, 0)", THEN conjunct2, THEN conjunct1]
    by (simp add: transfer_tx_def)
  have c: "\<exists>essence'. Essence (transfer_tx [UTXOInput txidA 0] [simple_out addrB 5] [sigA])
        = Some essence' \<and>
      1 \<le> length (Inputs essence') \<and> length (Inputs essence') \<le> 127 \<and>
      1 \<le> length (Outputs essence') \<and> length (Outputs essence') \<le> 127 \<and>
      length (UnlockBlocks (transfer_tx [UTXOInput txidA 0] [simple_out addrB 5] [sigA]))
        = length (Inputs essence')"
    using c2 [where deSeriMode = DeSeriModePerformValidation and params = example_consts
        and caps = example_caps and decs = example_decs and tags = example_tags
        and deSeriCtx = "Some example_paras" and data = small_tx_bytes
        and t' = "transfer_tx [UTXOInput txidA 0] [simple_out addrB 5] [sigA]" and n = 22,
        THEN conjunct2, THEN conjunct2, THEN conjunct1]
      small_tx_decodes
    by (simp add: transfer_tx_def)
  have d: "\<exists>err. Transaction_Serialize example_consts example_caps example_encs example_tags
      DeSeriModePerformValidation (Some example_paras) big_tx = Inl err"
    using c2 [where deSeriMode = DeSeriModePerformValidation and t = big_tx
        and essence = "\<lparr>Inputs = many_inputs, Outputs = [simple_out addrB 1000000],
                         Payload = None\<rparr>"
        and params = example_consts and caps = example_caps and encs = example_encs
        and tags = example_tags and deSeriCtx = "Some example_paras",
        THEN conjunct2, THEN conjunct2, THEN conjunct2]
    by (simp add: big_tx_def transfer_tx_def many_inputs_length)
  from a b c d small_tx_decodes show ?thesis
    by (simp add: big_tx_def transfer_tx_def many_inputs_length)
qed

end
